theory Spec2Isabelle
  imports Complex_Main "HOL-Library.AList"
begin

section \<open>Stride: the price-history helpers of \<^verbatim>\<open>frontend/src/utils/helpers.ts\<close>\<close>

text \<open>
  The development embeds \<^verbatim>\<open>calculatePriceChange\<close>, \<^verbatim>\<open>transformPriceData\<close> and
  \<^verbatim>\<open>calculateStats\<close> of \<^verbatim>\<open>helpers.ts\<close> and the guard of \<^verbatim>\<open>useChartData\<close>, with the
  interfaces of \<^verbatim>\<open>types.ts\<close> they work on.
\<close>

subsection \<open>JavaScript numbers\<close>

text \<open>
  A JavaScript \<^verbatim>\<open>number\<close> is an IEEE 754 binary64 value: a finite double, given by
  the rational it stands for, the negative zero, an infinity or not-a-number. \<open>Fin 0\<close> is
  the positive zero. The operations below follow IEEE 754 on these values: results are
  rounded to the nearest double, ties to the even significand, overflow to an infinity,
  and a zero result carries its sign. A \<open>Fin q\<close> whose \<open>q\<close> no double stands for is
  outside the values a program can hold; \<open>is_double\<close> says which rationals are doubles.
\<close>

datatype jsnum = Fin rat | NegZero | PosInf | NegInf | NaN

text \<open>
  The number of binary digits of a positive integer, the powers of two, and for
  \<open>q \<noteq> 0\<close> the exponent \<open>e\<close> with \<open>2\<^sup>e \<le> \<bar>q\<bar> < 2\<^sup>e\<^sup>+\<^sup>1\<close>: one less than the digits of
  the integer part when \<open>1 \<le> \<bar>q\<bar>\<close>, and otherwise minus the least \<open>k\<close> with
  \<open>1 / \<bar>q\<bar> \<le> 2\<^sup>k\<close>.
\<close>

function bit_length :: "int \<Rightarrow> int" where
  "bit_length n = (if n \<le> 0 then 0 else 1 + bit_length (n div 2))"
  by auto

termination
  by (relation "measure nat") auto

declare bit_length.simps [simp del]

definition pow2 :: "int \<Rightarrow> rat" where
  "pow2 e = (if 0 \<le> e then 2 ^ nat e else 1 / 2 ^ nat (- e))"

definition ilog2 :: "rat \<Rightarrow> int" where
  "ilog2 q =
     (if 1 \<le> \<bar>q\<bar> then bit_length \<lfloor>\<bar>q\<bar>\<rfloor> - 1
      else - bit_length (\<lceil>1 / \<bar>q\<bar>\<rceil> - 1))"

text \<open>
  The spacing of the doubles around \<open>q\<close>: a double has 53 significant binary digits, and
  below \<open>2\<^sup>-\<^sup>1\<^sup>0\<^sup>2\<^sup>2\<close> the subnormal doubles are \<open>2\<^sup>-\<^sup>1\<^sup>0\<^sup>7\<^sup>4\<close> apart.
\<close>

definition quantum :: "rat \<Rightarrow> rat" where
  "quantum q = pow2 (max (ilog2 q) (- 1022) - 52)"

definition round_half_even :: "rat \<Rightarrow> int" where
  "round_half_even x =
     (let f = \<lfloor>x\<rfloor>; d = x - of_int f
      in if d < 1 / 2 then f
         else if 1 / 2 < d then f + 1
         else if even f then f else f + 1)"

definition inf_signed :: "bool \<Rightarrow> jsnum" where
  "inf_signed negative = (if negative then NegInf else PosInf)"

text \<open>
  Rounding an exact result \<open>q\<close> to the nearest double, the multiple of the spacing
  nearest to \<open>q\<close>, the even one of two equally near. One that is zero keeps the sign of
  \<open>q\<close>. The largest double is \<open>2\<^sup>1\<^sup>0\<^sup>2\<^sup>4 - 2\<^sup>9\<^sup>7\<^sup>1\<close>: a rounded value of exponent 1024 or
  more is an infinity.
\<close>

definition round_double :: "rat \<Rightarrow> jsnum" where
  "round_double q =
     (let n = round_half_even (q / quantum q); r = of_int n * quantum q
      in if n = 0 then (if 0 \<le> q then Fin 0 else NegZero)
         else if 1024 \<le> ilog2 r then inf_signed (r < 0)
         else Fin r)"


text \<open>What kind of value a number is, its sign bit, and the rational a finite one stands for.\<close>

fun is_zero :: "jsnum \<Rightarrow> bool" where
  "is_zero (Fin a) = (a = 0)"
| "is_zero NegZero = True"
| "is_zero _ = False"

fun is_inf :: "jsnum \<Rightarrow> bool" where
  "is_inf PosInf = True"
| "is_inf NegInf = True"
| "is_inf _ = False"

fun is_neg :: "jsnum \<Rightarrow> bool" where
  "is_neg (Fin a) = (a < 0)"
| "is_neg NegZero = True"
| "is_neg NegInf = True"
| "is_neg _ = False"

fun val :: "jsnum \<Rightarrow> rat" where
  "val (Fin a) = a"
| "val _ = 0"

definition zero_signed :: "bool \<Rightarrow> jsnum" where
  "zero_signed negative = (if negative then NegZero else Fin 0)"

text \<open>
  Unary minus flips the sign bit. Addition: infinities of opposite signs give
  not-a-number; two zeros give the negative zero only when both are negative; a zero added
  to another value leaves that value; an exact sum of zero is the positive zero; every
  other sum is rounded. Subtraction is the addition of the negated operand.
\<close>

fun js_neg :: "jsnum \<Rightarrow> jsnum" where
  "js_neg (Fin a) = (if a = 0 then NegZero else Fin (- a))"
| "js_neg NegZero = Fin 0"
| "js_neg PosInf = NegInf"
| "js_neg NegInf = PosInf"
| "js_neg NaN = NaN"

definition js_add :: "jsnum \<Rightarrow> jsnum \<Rightarrow> jsnum" where
  "js_add x y =
     (if x = NaN \<or> y = NaN then NaN
      else if is_inf x then (if is_inf y \<and> x \<noteq> y then NaN else x)
      else if is_inf y then y
      else if is_zero x \<and> is_zero y then zero_signed (is_neg x \<and> is_neg y)
      else if is_zero y then x
      else if is_zero x then y
      else if val x + val y = 0 then Fin 0
      else round_double (val x + val y))"

definition js_sub :: "jsnum \<Rightarrow> jsnum \<Rightarrow> jsnum" where
  "js_sub x y = js_add x (js_neg y)"

text \<open>
  Multiplication and division: the sign of the result is negative when the signs of the
  operands differ; zero times infinity, infinity by infinity and zero by zero are
  not-a-number; a finite value by zero is an infinity; every other result is rounded.
\<close>

definition js_mul :: "jsnum \<Rightarrow> jsnum \<Rightarrow> jsnum" where
  "js_mul x y =
     (if x = NaN \<or> y = NaN then NaN
      else if (is_inf x \<and> is_zero y) \<or> (is_zero x \<and> is_inf y) then NaN
      else if is_inf x \<or> is_inf y then inf_signed (is_neg x \<noteq> is_neg y)
      else if is_zero x \<or> is_zero y then zero_signed (is_neg x \<noteq> is_neg y)
      else round_double (val x * val y))"

definition js_div :: "jsnum \<Rightarrow> jsnum \<Rightarrow> jsnum" where
  "js_div x y =
     (if x = NaN \<or> y = NaN then NaN
      else if (is_inf x \<and> is_inf y) \<or> (is_zero x \<and> is_zero y) then NaN
      else if is_inf x \<or> is_zero y then inf_signed (is_neg x \<noteq> is_neg y)
      else if is_zero x \<or> is_inf y then zero_signed (is_neg x \<noteq> is_neg y)
      else round_double (val x / val y))"

text \<open>
  The comparison \<^verbatim>\<open>x < y\<close>: false as soon as one side is not a number; the two zeros
  are equal.
\<close>

definition js_lt :: "jsnum \<Rightarrow> jsnum \<Rightarrow> bool" where
  "js_lt x y =
     (if x = NaN \<or> y = NaN then False
      else if x = NegInf then y \<noteq> NegInf
      else if y = PosInf then x \<noteq> PosInf
      else if x = PosInf \<or> y = NegInf then False
      else val x < val y)"

text \<open>
  \<^verbatim>\<open>Math.min(...xs)\<close> and \<^verbatim>\<open>Math.max(...xs)\<close>: the running value starts at the
  opposite infinity, a not-a-number argument makes the result not-a-number, and the
  negative zero counts as less than the positive one.
\<close>

definition min_step :: "jsnum \<Rightarrow> jsnum \<Rightarrow> jsnum" where
  "min_step n lowest =
     (if n = NaN \<or> lowest = NaN then NaN
      else if js_lt n lowest \<or> (n = NegZero \<and> lowest = Fin 0) then n
      else lowest)"

definition max_step :: "jsnum \<Rightarrow> jsnum \<Rightarrow> jsnum" where
  "max_step n highest =
     (if n = NaN \<or> highest = NaN then NaN
      else if js_lt highest n \<or> (n = Fin 0 \<and> highest = NegZero) then n
      else highest)"

definition Math_min :: "jsnum list \<Rightarrow> jsnum" where
  "Math_min xs = fold min_step xs PosInf"

definition Math_max :: "jsnum list \<Rightarrow> jsnum" where
  "Math_max xs = fold max_step xs NegInf"

subsection \<open>The interfaces of \<^verbatim>\<open>types.ts\<close>\<close>

text \<open>
  Identifiers are database keys and are modelled as integers. A field declared with
  \<^verbatim>\<open>?\<close> is an option: \<open>None\<close> is the absent field (\<^verbatim>\<open>undefined\<close>).
\<close>

record PricePoint =
  timestamp :: string
  price :: jsnum
  sneaker_id :: int

record Sneaker =
  sneaker_id :: int
  name :: string
  sku :: string
  release_date :: "string option"
  colorway :: "string option"
  available_sizes :: "string option"
  price :: jsnum
  ratings :: "jsnum option"
  brand_id :: int
  brand_name :: string
  retailer_id :: int

text \<open>
  A \<^verbatim>\<open>ChartData\<close> object has the fixed key \<^verbatim>\<open>timestamp\<close>, a \<^verbatim>\<open>Date\<close>, and one
  dynamic key per series. The \<^verbatim>\<open>Date\<close> is its time value, the milliseconds since the
  epoch; the dynamic keys are an association list in insertion order, the order in which
  an object enumerates its string keys.
\<close>

record ChartData =
  timestamp :: int
  series :: "(string \<times> jsnum) list"

record SneakerStats =
  sneaker_id :: int
  name :: string
  sku :: string
  current_price :: jsnum
  retail_price :: jsnum
  price_change :: jsnum
  price_change_percent :: jsnum
  min_price :: jsnum
  max_price :: jsnum
  avg_price :: jsnum
  release_date :: string
  available_sizes :: string
  ratings :: jsnum

datatype js_error = RangeError | TypeError

subsection \<open>\<^verbatim>\<open>calculatePriceChange\<close>\<close>

text \<open>Lines 25 to 30 of \<^verbatim>\<open>helpers.ts\<close>: no check of \<^verbatim>\<open>oldPrice\<close> before the division.\<close>

definition calculatePriceChange :: "jsnum \<Rightarrow> jsnum \<Rightarrow> jsnum" where
  "calculatePriceChange oldPrice newPrice =
     js_mul (js_div (js_sub newPrice oldPrice) oldPrice) (Fin 100)"

subsection \<open>\<^verbatim>\<open>transformPriceData\<close>\<close>

text \<open>
  \<^verbatim>\<open>new Date(timestamp)\<close> parses a string with the host's date parser, which is not
  part of the repository: it is the parameter \<open>parse\<close>, giving the time value in
  milliseconds since the epoch, or \<open>None\<close> for an invalid date.

  \<^verbatim>\<open>normalizeTimestamp\<close> sets the UTC hours, minutes, seconds and milliseconds of the
  date to zero and returns \<^verbatim>\<open>toISOString()\<close>, which throws a \<^verbatim>\<open>RangeError\<close> on an
  invalid date. A day of UTC time has 86400000 milliseconds and the epoch is a UTC
  midnight, so the new time value is the old one rounded down to a multiple of 86400000.
  \<^verbatim>\<open>toISOString\<close> is one-to-one on time values and \<^verbatim>\<open>new Date\<close> inverts it, so the
  model keeps the time value where the source keeps its ISO string.
\<close>

definition msPerDay :: int where
  "msPerDay = 86400000"

definition normalizeTimestamp :: "(string \<Rightarrow> int option) \<Rightarrow> string \<Rightarrow> js_error + int" where
  "normalizeTimestamp parse ts =
     (case parse ts of
        None \<Rightarrow> Inl RangeError
      | Some t \<Rightarrow> Inr ((t div msPerDay) * msPerDay))"

text \<open>
  A JavaScript \<^verbatim>\<open>Map\<close> enumerates its keys in insertion order, and \<^verbatim>\<open>set\<close> on a key
  that is present replaces the value where it stands: an association list with
  \<^const>\<open>AList.update\<close> for \<^verbatim>\<open>set\<close> and \<^const>\<open>map_of\<close> for \<^verbatim>\<open>get\<close> and \<^verbatim>\<open>has\<close>.
\<close>

type_synonym priceMap = "(int \<times> jsnum) list"
type_synonym grouped = "(int \<times> priceMap) list"

text \<open>
  The body of \<^verbatim>\<open>pricePoints.forEach\<close> (lines 55 to 61). The inner map is mutated
  in place, which the model writes as storing the updated inner map under the same key.
  The non-null assertion on \<^verbatim>\<open>grouped.get\<close> is a \<^verbatim>\<open>TypeError\<close> when the key is
  missing.
\<close>

definition groupPoint :: "(string \<Rightarrow> int option) \<Rightarrow> PricePoint \<Rightarrow> grouped \<Rightarrow> js_error + grouped" where
  "groupPoint parse point grouped =
     (case normalizeTimestamp parse (PricePoint.timestamp point) of
        Inl e \<Rightarrow> Inl e
      | Inr normalizedTimestamp \<Rightarrow>
          (let grouped1 =
                 (if map_of grouped normalizedTimestamp = None
                  then AList.update normalizedTimestamp [] grouped
                  else grouped)
           in case map_of grouped1 normalizedTimestamp of
                None \<Rightarrow> Inl TypeError
              | Some priceMap \<Rightarrow>
                  Inr (AList.update normalizedTimestamp
                         (AList.update (PricePoint.sneaker_id point) (PricePoint.price point) priceMap)
                         grouped1)))"

fun groupPoints :: "(string \<Rightarrow> int option) \<Rightarrow> PricePoint list \<Rightarrow> grouped \<Rightarrow> js_error + grouped" where
  "groupPoints parse [] grouped = Inr grouped"
| "groupPoints parse (point # rest) grouped =
     (case groupPoint parse point grouped of
        Inl e \<Rightarrow> Inl e
      | Inr grouped' \<Rightarrow> groupPoints parse rest grouped')"

text \<open>
  The template literal \<^verbatim>\<open>`${sneaker.name} - ${sneaker.colorway}`\<close>, which the source
  writes out in \<^verbatim>\<open>transformPriceData\<close> and in both branches of \<^verbatim>\<open>calculateStats\<close>.
  An absent \<^verbatim>\<open>colorway\<close> is \<^verbatim>\<open>undefined\<close>, which a template literal prints as such.
\<close>

definition seriesKey :: "Sneaker \<Rightarrow> string" where
  "seriesKey sneaker =
     Sneaker.name sneaker @ '' - '' @
     (case Sneaker.colorway sneaker of None \<Rightarrow> ''undefined'' | Some c \<Rightarrow> c)"

text \<open>
  The body of \<^verbatim>\<open>priceMap.forEach\<close> (lines 72 to 78): an entry whose id
  \<^verbatim>\<open>sneakers.find\<close> does not resolve is skipped. The body of \<^verbatim>\<open>grouped.forEach\<close>
  (lines 66 to 81): every bucket gives a row, pushed whatever its entries resolved to.
\<close>

definition addPrice :: "Sneaker list \<Rightarrow> int \<times> jsnum \<Rightarrow> (string \<times> jsnum) list \<Rightarrow> (string \<times> jsnum) list" where
  "addPrice sneakers entry dataPoint =
     (case find (\<lambda>s. Sneaker.sneaker_id s = fst entry) sneakers of
        None \<Rightarrow> dataPoint
      | Some sneaker \<Rightarrow> AList.update (seriesKey sneaker) (snd entry) dataPoint)"

definition buildRow :: "Sneaker list \<Rightarrow> int \<times> priceMap \<Rightarrow> ChartData" where
  "buildRow sneakers bucket =
     \<lparr>ChartData.timestamp = fst bucket,
      series = fold (addPrice sneakers) (snd bucket) []\<rparr>"

text \<open>
  The guard of lines 39 to 41 returns before any timestamp is read. The rows are sorted
  by time value (lines 84 to 86); \<^verbatim>\<open>Array.prototype.sort\<close> is stable, as
  \<^const>\<open>sort_key\<close> is.
\<close>

definition transformPriceData :: "(string \<Rightarrow> int option) \<Rightarrow> PricePoint list \<Rightarrow> Sneaker list \<Rightarrow> js_error + ChartData list" where
  "transformPriceData parse pricePoints sneakers =
     (if length pricePoints = 0 \<or> length sneakers = 0 then Inr []
      else case groupPoints parse pricePoints [] of
             Inl e \<Rightarrow> Inl e
           | Inr grouped \<Rightarrow>
               Inr (sort_key ChartData.timestamp (map (buildRow sneakers) grouped)))"

text \<open>The function memoised by the hook \<^verbatim>\<open>useChartData\<close>.\<close>

definition useChartData :: "(string \<Rightarrow> int option) \<Rightarrow> PricePoint list \<Rightarrow> Sneaker list \<Rightarrow> js_error + ChartData list" where
  "useChartData parse priceHistory sneakers =
     (if length priceHistory = 0 \<or> length sneakers = 0 then Inr []
      else transformPriceData parse priceHistory sneakers)"

subsection \<open>\<^verbatim>\<open>calculateStats\<close>\<close>

text \<open>
  Lines 92 to 141. \<^verbatim>\<open>x || d\<close> on an optional string and on an optional number: the
  falsy values (absent, the empty string, either zero, not-a-number) give \<open>d\<close>. The
  length of an array is an integer below \<open>2\<^sup>3\<^sup>2\<close>, so it is a double as it stands.
\<close>

definition or_string :: "string option \<Rightarrow> string \<Rightarrow> string" where
  "or_string x d = (case x of None \<Rightarrow> d | Some s \<Rightarrow> if s = [] then d else s)"

definition or_number :: "jsnum option \<Rightarrow> jsnum \<Rightarrow> jsnum" where
  "or_number x d =
     (case x of None \<Rightarrow> d | Some n \<Rightarrow> if n = Fin 0 \<or> n = NegZero \<or> n = NaN then d else n)"

definition calculateStats :: "Sneaker \<Rightarrow> PricePoint list \<Rightarrow> SneakerStats" where
  "calculateStats sneaker pricePoints =
     (let sneakerPrices =
            filter (\<lambda>p. PricePoint.sneaker_id p = Sneaker.sneaker_id sneaker) pricePoints
      in if length sneakerPrices = 0 then
           \<lparr>SneakerStats.sneaker_id = Sneaker.sneaker_id sneaker,
            SneakerStats.name = seriesKey sneaker,
            SneakerStats.sku = Sneaker.sku sneaker,
            current_price = Sneaker.price sneaker,
            retail_price = Sneaker.price sneaker,
            price_change = Fin 0,
            price_change_percent = Fin 0,
            min_price = Sneaker.price sneaker,
            max_price = Sneaker.price sneaker,
            avg_price = Sneaker.price sneaker,
            SneakerStats.release_date = or_string (Sneaker.release_date sneaker) ''Unknown'',
            SneakerStats.available_sizes = or_string (Sneaker.available_sizes sneaker) ''N/A'',
            SneakerStats.ratings = or_number (Sneaker.ratings sneaker) (Fin 0)\<rparr>
         else
           (let prices = map PricePoint.price sneakerPrices;
                currentPrice = prices ! (length prices - 1);
                minPrice = Math_min prices;
                maxPrice = Math_max prices;
                avgPrice = js_div (fold (\<lambda>p sum. js_add sum p) prices (Fin 0))
                                  (Fin (of_nat (length prices)));
                priceChange = js_sub currentPrice (Sneaker.price sneaker);
                priceChangePercent = calculatePriceChange (Sneaker.price sneaker) currentPrice
            in \<lparr>SneakerStats.sneaker_id = Sneaker.sneaker_id sneaker,
                SneakerStats.name = seriesKey sneaker,
                SneakerStats.sku = Sneaker.sku sneaker,
                current_price = currentPrice,
                retail_price = Sneaker.price sneaker,
                price_change = priceChange,
                price_change_percent = priceChangePercent,
                min_price = minPrice,
                max_price = maxPrice,
                avg_price = avgPrice,
                SneakerStats.release_date = or_string (Sneaker.release_date sneaker) ''Unknown'',
                SneakerStats.available_sizes = or_string (Sneaker.available_sizes sneaker) ''N/A'',
                SneakerStats.ratings = or_number (Sneaker.ratings sneaker) (Fin 0)\<rparr>))"

subsection \<open>Example inputs\<close>

text \<open>
  Builders for the concrete entities and samples of the examples: the fields the helpers
  never read get fixed values.
\<close>

definition sneakerOf :: "int \<Rightarrow> string \<Rightarrow> string option \<Rightarrow> jsnum \<Rightarrow> Sneaker" where
  "sneakerOf i n c p =
     \<lparr>Sneaker.sneaker_id = i, Sneaker.name = n, Sneaker.sku = ''SKU'',
      Sneaker.release_date = None, colorway = c, Sneaker.available_sizes = None,
      Sneaker.price = p, Sneaker.ratings = None, brand_id = 1, brand_name = ''Brand'',
      retailer_id = 1\<rparr>"

definition pointOf :: "string \<Rightarrow> jsnum \<Rightarrow> int \<Rightarrow> PricePoint" where
  "pointOf ts p i = \<lparr>PricePoint.timestamp = ts, PricePoint.price = p, PricePoint.sneaker_id = i\<rparr>"

text \<open>
  Time values of UTC dates, by the day arithmetic of the ECMAScript specification
  (\<^verbatim>\<open>DayFromYear\<close>, \<^verbatim>\<open>MakeDay\<close>, \<^verbatim>\<open>MakeTime\<close>, \<^verbatim>\<open>MakeDate\<close>): the time value of
  year \<open>y\<close>, month \<open>m\<close> (from 1), day \<open>d\<close>, \<open>h\<close> hours, \<open>mi\<close> minutes and \<open>s\<close> seconds.
\<close>

definition DayFromYear :: "int \<Rightarrow> int" where
  "DayFromYear y = 365 * (y - 1970) + (y - 1969) div 4 - (y - 1901) div 100 + (y - 1601) div 400"

definition DaysInFebruary :: "int \<Rightarrow> int" where
  "DaysInFebruary y =
     (if y mod 400 = 0 then 29 else if y mod 100 = 0 then 28 else if y mod 4 = 0 then 29 else 28)"

definition utcTime :: "int \<Rightarrow> nat \<Rightarrow> int \<Rightarrow> int \<Rightarrow> int \<Rightarrow> int \<Rightarrow> int" where
  "utcTime y m d h mi s =
     (DayFromYear y
      + sum_list (take (m - 1) [31, DaysInFebruary y, 31, 30, 31, 30, 31, 31, 30, 31, 30, 31])
      + (d - 1)) * 86400000
     + h * 3600000 + mi * 60000 + s * 1000"

text \<open>
  The date parser of the examples knows three ISO strings and gives their time values.
  Every other string is an invalid date.
\<close>

definition exampleParse :: "string \<Rightarrow> int option" where
  "exampleParse =
     map_of [(''2025-01-01T02:00:00Z'', utcTime 2025 1 1 2 0 0),
             (''2025-01-01T23:00:00Z'', utcTime 2025 1 1 23 0 0),
             (''2025-01-02T10:00:00Z'', utcTime 2025 1 2 10 0 0)]"

definition exampleSneakers :: "Sneaker list" where
  "exampleSneakers =
     [sneakerOf 1 ''Air'' (Some ''Red'') (Fin 100), sneakerOf 2 ''Zoom'' None (Fin 150)]"

definition examplePoints :: "PricePoint list" where
  "examplePoints =
     [pointOf ''2025-01-01T02:00:00Z'' (Fin 100) 1,
      pointOf ''2025-01-01T23:00:00Z'' (Fin 110) 1,
      pointOf ''2025-01-01T23:00:00Z'' (Fin 200) 2,
      pointOf ''2025-01-02T10:00:00Z'' (Fin 130) 1]"

text \<open>
  The chart rows of \<^const>\<open>examplePoints\<close> and \<^const>\<open>exampleSneakers\<close>: one row dated
  2025-01-01T00:00:00Z, the time value 1735689600000, and one dated 2025-01-02T00:00:00Z,
  the time value 1735776000000.
\<close>

definition exampleRows :: "ChartData list" where
  "exampleRows =
     [\<lparr>ChartData.timestamp = 1735689600000,
       series = [(''Air - Red'', Fin 110), (''Zoom - undefined'', Fin 200)]\<rparr>,
      \<lparr>ChartData.timestamp = 1735776000000, series = [(''Air - Red'', Fin 130)]\<rparr>]"

text \<open>Samples of an entity id, 99, that \<^const>\<open>exampleSneakers\<close> does not contain.\<close>

definition unknownPoints :: "PricePoint list" where
  "unknownPoints =
     [pointOf ''2025-01-01T02:00:00Z'' (Fin 100) 1,
      pointOf ''2025-01-01T23:00:00Z'' (Fin 77) 99,
      pointOf ''2025-01-02T10:00:00Z'' (Fin 55) 99]"

subsection \<open>Notions used in the proofs\<close>

text \<open>
  What one step of \<^verbatim>\<open>pricePoints.forEach\<close> does to the buckets once the timestamp has
  been normalised to \<open>d\<close>; the price stored for an entity in a day's bucket; the day a
  sample falls in; and the series key an entity id resolves to through
  \<^verbatim>\<open>sneakers.find\<close>.
\<close>

definition bucketInsert :: "int \<Rightarrow> int \<Rightarrow> jsnum \<Rightarrow> grouped \<Rightarrow> grouped" where
  "bucketInsert d i v g =
     AList.update d (AList.update i v (case map_of g d of None \<Rightarrow> [] | Some m \<Rightarrow> m)) g"

definition lookup2 :: "grouped \<Rightarrow> int \<Rightarrow> int \<Rightarrow> jsnum option" where
  "lookup2 g d i = (case map_of g d of None \<Rightarrow> None | Some m \<Rightarrow> map_of m i)"

definition inBucket :: "(string \<Rightarrow> int option) \<Rightarrow> PricePoint \<Rightarrow> int \<Rightarrow> bool" where
  "inBucket parse p d = (normalizeTimestamp parse (PricePoint.timestamp p) = Inr d)"

definition resolveKey :: "Sneaker list \<Rightarrow> int \<Rightarrow> string option" where
  "resolveKey sneakers i = map_option seriesKey (find (\<lambda>s. Sneaker.sneaker_id s = i) sneakers)"

section \<open>Properties\<close>

subsection \<open>Grouping the samples into day buckets\<close>

lemma normalizeTimestamp_Inr:
  "normalizeTimestamp parse ts = Inr d \<longleftrightarrow> (\<exists>t. parse ts = Some t \<and> d = t div msPerDay * msPerDay)"
  by (auto simp: normalizeTimestamp_def split: option.splits)

lemma normalizeTimestamp_cases:
  "(\<exists>d. normalizeTimestamp parse ts = Inr d) \<or> normalizeTimestamp parse ts = Inl RangeError"
  by (simp add: normalizeTimestamp_def split: option.splits)

lemma inBucket_unique: "inBucket parse p d \<Longrightarrow> inBucket parse p d' \<Longrightarrow> d' = d"
  by (simp add: inBucket_def)

lemma inBucket_iff:
  "inBucket parse p d \<longleftrightarrow> (\<exists>t. parse (PricePoint.timestamp p) = Some t \<and> d = t div 86400000 * 86400000)"
  by (simp add: inBucket_def normalizeTimestamp_Inr msPerDay_def)

lemma day_bounds:
  fixes t :: int
  shows "(t div 86400000 * 86400000) mod 86400000 = 0"
    and "t div 86400000 * 86400000 \<le> t"
    and "t < t div 86400000 * 86400000 + 86400000"
proof -
  have eq: "t div 86400000 * 86400000 = t - t mod 86400000"
    by (simp add: minus_mod_eq_div_mult)
  show "(t div 86400000 * 86400000) mod 86400000 = 0" by simp
  have "0 \<le> t mod 86400000" and "t mod 86400000 < 86400000" by simp_all
  then show "t div 86400000 * 86400000 \<le> t" and "t < t div 86400000 * 86400000 + 86400000"
    using eq by linarith+
qed

lemma groupPoint_Inr:
  assumes "inBucket parse p d"
  shows "groupPoint parse p g
         = Inr (bucketInsert d (PricePoint.sneaker_id p) (PricePoint.price p) g)"
proof (cases "map_of g d")
  case None
  then show ?thesis
    using assms by (simp add: inBucket_def groupPoint_def bucketInsert_def AList.update_conv')
next
  case (Some m)
  then show ?thesis
    using assms by (simp add: inBucket_def groupPoint_def bucketInsert_def)
qed

lemma groupPoint_Inl:
  assumes "normalizeTimestamp parse (PricePoint.timestamp p) = Inl e"
  shows "groupPoint parse p g = Inl e"
  using assms by (simp add: groupPoint_def)

lemma groupPoint_InrD:
  assumes "groupPoint parse p g = Inr g'"
  shows "\<exists>d. inBucket parse p d \<and> g' = bucketInsert d (PricePoint.sneaker_id p) (PricePoint.price p) g"
proof -
  from normalizeTimestamp_cases [of parse "PricePoint.timestamp p"]
  show ?thesis
  proof
    assume "\<exists>d. normalizeTimestamp parse (PricePoint.timestamp p) = Inr d"
    then obtain d where d: "inBucket parse p d" by (auto simp: inBucket_def)
    from groupPoint_Inr [OF d, of g] assms d show ?thesis by auto
  next
    assume "normalizeTimestamp parse (PricePoint.timestamp p) = Inl RangeError"
    from groupPoint_Inl [OF this, of g] assms show ?thesis by simp
  qed
qed

lemma groupPoints_ConsD:
  assumes "groupPoints parse (p # ps) g = Inr g'"
  shows "\<exists>d. inBucket parse p d
           \<and> groupPoints parse ps (bucketInsert d (PricePoint.sneaker_id p) (PricePoint.price p) g) = Inr g'"
proof (cases "groupPoint parse p g")
  case (Inl e)
  with assms show ?thesis by simp
next
  case (Inr g1)
  from groupPoint_InrD [OF Inr] assms Inr show ?thesis by auto
qed

lemma groupPoints_append:
  "groupPoints parse (xs @ ys) g
   = (case groupPoints parse xs g of Inl e \<Rightarrow> Inl e | Inr g1 \<Rightarrow> groupPoints parse ys g1)"
  by (induction xs arbitrary: g) (auto split: sum.splits)

lemma groupPoints_total:
  assumes "\<forall>p\<in>set ps. parse (PricePoint.timestamp p) \<noteq> None"
  shows "\<exists>g'. groupPoints parse ps g = Inr g'"
  using assms
proof (induction ps arbitrary: g)
  case Nil
  then show ?case by simp
next
  case (Cons p ps)
  then obtain t where "parse (PricePoint.timestamp p) = Some t" by auto
  then have "inBucket parse p (t div msPerDay * msPerDay)"
    by (simp add: inBucket_def normalizeTimestamp_Inr)
  from groupPoint_Inr [OF this, of g] Cons show ?case by simp
qed

lemma keys_bucketInsert: "fst ` set (bucketInsert d i v g) = insert d (fst ` set g)"
  by (simp add: bucketInsert_def AList.dom_update)

lemma distinct_bucketInsert:
  "distinct (map fst g) \<Longrightarrow> distinct (map fst (bucketInsert d i v g))"
  by (simp add: bucketInsert_def AList.distinct_update)

lemma lookup2_bucketInsert:
  "lookup2 (bucketInsert d i v g) d' i'
   = (if d' = d \<and> i' = i then Some v else lookup2 g d' i')"
  by (auto simp: lookup2_def bucketInsert_def AList.update_conv' split: option.splits)

lemma set_update_subset: "set (AList.update k v al) \<subseteq> insert (k, v) (set al)"
  by (induction al) auto

lemma bucketInsert_entries:
  assumes "(d', m') \<in> set (bucketInsert d i v g)" and "(i', v') \<in> set m'"
  shows "(d' = d \<and> i' = i \<and> v' = v) \<or> (\<exists>m0. (d', m0) \<in> set g \<and> (i', v') \<in> set m0)"
proof -
  let ?m0 = "case map_of g d of None \<Rightarrow> [] | Some m \<Rightarrow> m"
  from assms(1) set_update_subset [of d "AList.update i v ?m0" g]
  have "(d', m') = (d, AList.update i v ?m0) \<or> (d', m') \<in> set g"
    by (auto simp: bucketInsert_def)
  then show ?thesis
  proof
    assume eq: "(d', m') = (d, AList.update i v ?m0)"
    with assms(2) set_update_subset [of i v ?m0]
    have "(i', v') = (i, v) \<or> (i', v') \<in> set ?m0" by auto
    then show ?thesis
    proof
      assume "(i', v') = (i, v)"
      with eq show ?thesis by simp
    next
      assume mem: "(i', v') \<in> set ?m0"
      then obtain m where m: "map_of g d = Some m" "?m0 = m"
        by (cases "map_of g d") auto
      then have "(d, m) \<in> set g" by (simp add: map_of_SomeD)
      with mem m eq show ?thesis by auto
    qed
  next
    assume "(d', m') \<in> set g"
    with assms(2) show ?thesis by blast
  qed
qed

lemma inner_distinct_bucketInsert:
  assumes "\<forall>(d', m)\<in>set g. distinct (map fst m)"
  shows "\<forall>(d', m)\<in>set (bucketInsert d i v g). distinct (map fst m)"
proof -
  let ?m0 = "case map_of g d of None \<Rightarrow> [] | Some m \<Rightarrow> m"
  have "distinct (map fst ?m0)"
  proof (cases "map_of g d")
    case None
    then show ?thesis by simp
  next
    case (Some m)
    then have "(d, m) \<in> set g" by (simp add: map_of_SomeD)
    with assms Some show ?thesis by auto
  qed
  then have "distinct (map fst (AList.update i v ?m0))"
    by (rule AList.distinct_update)
  with assms set_update_subset [of d "AList.update i v ?m0" g]
  show ?thesis by (auto simp: bucketInsert_def)
qed

lemma groupPoints_keys:
  assumes "groupPoints parse ps g = Inr g'"
  shows "d \<in> fst ` set g' \<longleftrightarrow> d \<in> fst ` set g \<or> (\<exists>p\<in>set ps. inBucket parse p d)"
  using assms
proof (induction ps arbitrary: g)
  case Nil
  then show ?case by simp
next
  case (Cons q ps)
  from groupPoints_ConsD [OF Cons.prems] obtain dq where
    dq: "inBucket parse q dq" and
    r: "groupPoints parse ps (bucketInsert dq (PricePoint.sneaker_id q) (PricePoint.price q) g) = Inr g'"
    by blast
  have q: "inBucket parse q d \<longleftrightarrow> d = dq"
    using dq inBucket_unique [of parse q dq d] by blast
  have "d \<in> fst ` set g' \<longleftrightarrow> (d = dq \<or> d \<in> fst ` set g) \<or> (\<exists>p\<in>set ps. inBucket parse p d)"
    using Cons.IH [OF r] by (simp only: keys_bucketInsert insert_iff)
  also have "\<dots> \<longleftrightarrow> d \<in> fst ` set g \<or> (\<exists>p\<in>set (q # ps). inBucket parse p d)"
    using q by (simp only: list.set bex_simps insert_iff) blast
  finally show ?case .
qed

lemma groupPoints_distinct:
  assumes "groupPoints parse ps g = Inr g'" and "distinct (map fst g)"
  shows "distinct (map fst g')"
  using assms
proof (induction ps arbitrary: g)
  case Nil
  then show ?case by simp
next
  case (Cons q ps)
  from groupPoints_ConsD [OF Cons.prems(1)] obtain d where
    r: "groupPoints parse ps (bucketInsert d (PricePoint.sneaker_id q) (PricePoint.price q) g) = Inr g'"
    by blast
  from Cons.IH [OF r distinct_bucketInsert [OF Cons.prems(2)]] show ?case .
qed

lemma groupPoints_inner_distinct:
  assumes "groupPoints parse ps g = Inr g'" and "\<forall>(d, m)\<in>set g. distinct (map fst m)"
  shows "\<forall>(d, m)\<in>set g'. distinct (map fst m)"
  using assms
proof (induction ps arbitrary: g)
  case Nil
  then show ?case by simp
next
  case (Cons q ps)
  from groupPoints_ConsD [OF Cons.prems(1)] obtain d where
    r: "groupPoints parse ps (bucketInsert d (PricePoint.sneaker_id q) (PricePoint.price q) g) = Inr g'"
    by blast
  from Cons.IH [OF r inner_distinct_bucketInsert [OF Cons.prems(2)]] show ?case .
qed

lemma groupPoints_lookup_keep:
  assumes "groupPoints parse ps g = Inr g'"
    and "\<forall>p\<in>set ps. \<not> (inBucket parse p d \<and> PricePoint.sneaker_id p = i)"
  shows "lookup2 g' d i = lookup2 g d i"
  using assms
proof (induction ps arbitrary: g)
  case Nil
  then show ?case by simp
next
  case (Cons q ps)
  from groupPoints_ConsD [OF Cons.prems(1)] obtain dq where
    dq: "inBucket parse q dq" and
    r: "groupPoints parse ps (bucketInsert dq (PricePoint.sneaker_id q) (PricePoint.price q) g) = Inr g'"
    by blast
  from Cons.prems(2) dq have ne: "\<not> (d = dq \<and> i = PricePoint.sneaker_id q)" by auto
  from Cons.prems(2) have "\<forall>p\<in>set ps. \<not> (inBucket parse p d \<and> PricePoint.sneaker_id p = i)"
    by simp
  from Cons.IH [OF r this] ne show ?case
    by (simp add: lookup2_bucketInsert)
qed

lemma groupPoints_last_wins:
  assumes "groupPoints parse (pre @ p # post) g = Inr g'"
    and "inBucket parse p d"
    and "\<forall>q\<in>set post. \<not> (inBucket parse q d \<and> PricePoint.sneaker_id q = PricePoint.sneaker_id p)"
  shows "lookup2 g' d (PricePoint.sneaker_id p) = Some (PricePoint.price p)"
proof -
  from assms(1) obtain g1 where
    g1: "groupPoints parse pre g = Inr g1" and
    r1: "groupPoints parse (p # post) g1 = Inr g'"
    by (auto simp: groupPoints_append split: sum.splits)
  from groupPoints_ConsD [OF r1] obtain d' where
    d': "inBucket parse p d'" and
    r2: "groupPoints parse post (bucketInsert d' (PricePoint.sneaker_id p) (PricePoint.price p) g1) = Inr g'"
    by blast
  from d' assms(2) have "d' = d" by (simp add: inBucket_def)
  with groupPoints_lookup_keep [OF r2, of d "PricePoint.sneaker_id p"] assms(3)
  show ?thesis by (simp add: lookup2_bucketInsert)
qed

lemma groupPoints_entries:
  assumes "groupPoints parse ps g = Inr g'" and "(d, m) \<in> set g'" and "(i, v) \<in> set m"
  shows "(\<exists>m0. (d, m0) \<in> set g \<and> (i, v) \<in> set m0)
         \<or> (\<exists>p\<in>set ps. inBucket parse p d \<and> PricePoint.sneaker_id p = i \<and> PricePoint.price p = v)"
  using assms
proof (induction ps arbitrary: g)
  case Nil
  then show ?case by auto
next
  case (Cons q ps)
  from groupPoints_ConsD [OF Cons.prems(1)] obtain dq where
    dq: "inBucket parse q dq" and
    r: "groupPoints parse ps (bucketInsert dq (PricePoint.sneaker_id q) (PricePoint.price q) g) = Inr g'"
    by blast
  from Cons.IH [OF r Cons.prems(2,3)]
  show ?case
  proof
    assume "\<exists>m0. (d, m0) \<in> set (bucketInsert dq (PricePoint.sneaker_id q) (PricePoint.price q) g)
                 \<and> (i, v) \<in> set m0"
    then obtain m0 where
      "(d, m0) \<in> set (bucketInsert dq (PricePoint.sneaker_id q) (PricePoint.price q) g)"
      "(i, v) \<in> set m0" by blast
    from bucketInsert_entries [OF this] dq show ?thesis by auto
  next
    assume "\<exists>p\<in>set ps. inBucket parse p d \<and> PricePoint.sneaker_id p = i \<and> PricePoint.price p = v"
    then show ?thesis by auto
  qed
qed

lemma bucket_entries:
  assumes "groupPoints parse pricePoints [] = Inr g" and "(d, m) \<in> set g" and "(i, v) \<in> set m"
  shows "\<exists>p\<in>set pricePoints. inBucket parse p d \<and> PricePoint.sneaker_id p = i
           \<and> PricePoint.price p = v"
  using groupPoints_entries [OF assms] by simp

lemma lookup2_bucket:
  assumes "distinct (map fst g)" and "(d, m) \<in> set g"
  shows "lookup2 g d i = map_of m i"
  using assms by (simp add: lookup2_def)

lemma bucket_has_sample:
  assumes "groupPoints parse pricePoints [] = Inr g"
    and "point \<in> set pricePoints" and "inBucket parse point d"
    and "distinct (map fst g)" and "(d, m) \<in> set g"
  shows "PricePoint.sneaker_id point \<in> fst ` set m"
proof -
  let ?P = "\<lambda>q. inBucket parse q d \<and> PricePoint.sneaker_id q = PricePoint.sneaker_id point"
  from assms(2,3) have "\<exists>q\<in>set pricePoints. ?P q" by blast
  from split_list_last_prop [OF this] obtain pre q post where
    sp: "pricePoints = pre @ q # post" and q: "?P q" and post: "\<forall>z\<in>set post. \<not> ?P z"
    by blast
  from q post have post': "\<forall>z\<in>set post. \<not> (inBucket parse z d
      \<and> PricePoint.sneaker_id z = PricePoint.sneaker_id q)" by simp
  from assms(1) sp have "groupPoints parse (pre @ q # post) [] = Inr g" by simp
  from groupPoints_last_wins [OF this _ post'] q
  have "lookup2 g d (PricePoint.sneaker_id point) = Some (PricePoint.price q)" by simp
  with lookup2_bucket [OF assms(4,5)]
  have "map_of m (PricePoint.sneaker_id point) = Some (PricePoint.price q)" by simp
  from map_of_SomeD [OF this] show ?thesis by force
qed

subsection \<open>Building and sorting the rows\<close>

text \<open>
  A series key always holds a blank, so it never is the fixed key \<^verbatim>\<open>timestamp\<close> of a
  \<^verbatim>\<open>ChartData\<close> object: keeping the series apart from the timestamp loses nothing.
\<close>

lemma seriesKey_not_timestamp: "seriesKey sneaker \<noteq> ''timestamp''"
proof
  assume "seriesKey sneaker = ''timestamp''"
  then have "set (seriesKey sneaker) = set ''timestamp''" by simp
  moreover have "CHR '' '' \<in> set (seriesKey sneaker)" by (simp add: seriesKey_def)
  ultimately show False by simp
qed

lemma addPrice_resolve:
  "addPrice sneakers (i, v) dp
   = (case resolveKey sneakers i of None \<Rightarrow> dp | Some k \<Rightarrow> AList.update k v dp)"
  by (simp add: addPrice_def resolveKey_def split: option.splits)

lemma resolveKey_SomeD:
  assumes "resolveKey sneakers i = Some k"
  shows "\<exists>s\<in>set sneakers. Sneaker.sneaker_id s = i \<and> k = seriesKey s"
proof -
  from assms obtain s where s: "find (\<lambda>s. Sneaker.sneaker_id s = i) sneakers = Some s"
    and k: "k = seriesKey s"
    by (auto simp: resolveKey_def)
  from s have "s \<in> set sneakers \<and> Sneaker.sneaker_id s = i"
    by (auto simp: find_Some_iff in_set_conv_nth)
  with k show ?thesis by blast
qed

lemma resolveKey_None:
  assumes "i \<notin> Sneaker.sneaker_id ` set sneakers"
  shows "resolveKey sneakers i = None"
  using assms by (auto simp: resolveKey_def find_None_iff)

lemma fold_addPrice_unknown:
  assumes "\<forall>(i, v)\<in>set pm. resolveKey sneakers i = None"
  shows "fold (addPrice sneakers) pm acc = acc"
  using assms
proof (induction pm arbitrary: acc)
  case Nil
  then show ?case by simp
next
  case (Cons e pm)
  obtain i v where e: "e = (i, v)" by (cases e)
  with Cons.prems have "addPrice sneakers e acc = acc"
    by (simp add: addPrice_resolve)
  with Cons show ?case by simp
qed

lemma fold_addPrice_entries:
  assumes "(k, v) \<in> set (fold (addPrice sneakers) pm acc)"
  shows "(k, v) \<in> set acc \<or> (\<exists>i. (i, v) \<in> set pm \<and> resolveKey sneakers i = Some k)"
  using assms
proof (induction pm arbitrary: acc)
  case Nil
  then show ?case by simp
next
  case (Cons e pm)
  obtain i w where e: "e = (i, w)" by (cases e)
  from Cons.prems have "(k, v) \<in> set (fold (addPrice sneakers) pm (addPrice sneakers e acc))"
    by simp
  from Cons.IH [OF this]
  show ?case
  proof
    assume mem: "(k, v) \<in> set (addPrice sneakers e acc)"
    show ?thesis
    proof (cases "resolveKey sneakers i")
      case None
      with mem e show ?thesis by (simp add: addPrice_resolve)
    next
      case (Some k')
      with mem e set_update_subset [of k' w acc]
      have "(k, v) = (k', w) \<or> (k, v) \<in> set acc"
        by (auto simp: addPrice_resolve)
      with Some e show ?thesis by auto
    qed
  next
    assume "\<exists>i. (i, v) \<in> set pm \<and> resolveKey sneakers i = Some k"
    then show ?thesis by auto
  qed
qed

lemma fold_addPrice_keys:
  "k \<in> fst ` set (fold (addPrice sneakers) pm acc)
   \<longleftrightarrow> k \<in> fst ` set acc \<or> (\<exists>i\<in>fst ` set pm. resolveKey sneakers i = Some k)"
proof (induction pm arbitrary: acc)
  case Nil
  then show ?case by simp
next
  case (Cons e pm)
  obtain i w where e: "e = (i, w)" by (cases e)
  have step: "k \<in> fst ` set (addPrice sneakers e acc)
              \<longleftrightarrow> k \<in> fst ` set acc \<or> resolveKey sneakers i = Some k"
    by (cases "resolveKey sneakers i") (auto simp: e addPrice_resolve AList.dom_update)
  have "k \<in> fst ` set (fold (addPrice sneakers) (e # pm) acc)
        \<longleftrightarrow> k \<in> fst ` set (addPrice sneakers e acc)
            \<or> (\<exists>i\<in>fst ` set pm. resolveKey sneakers i = Some k)"
    using Cons.IH [of "addPrice sneakers e acc"] by simp
  then show ?case using step e by auto
qed

lemma fold_addPrice_value:
  assumes "distinct (map fst pm)"
    and "resolveKey sneakers i0 = Some k"
    and "\<forall>i\<in>fst ` set pm. resolveKey sneakers i = Some k \<longrightarrow> i = i0"
  shows "map_of (fold (addPrice sneakers) pm acc) k
         = (case map_of pm i0 of None \<Rightarrow> map_of acc k | Some v \<Rightarrow> Some v)"
  using assms
proof (induction pm arbitrary: acc)
  case Nil
  then show ?case by simp
next
  case (Cons e pm)
  obtain i w where e: "e = (i, w)" by (cases e)
  from Cons.prems have d: "distinct (map fst pm)" and notin: "i \<notin> fst ` set pm"
    and u: "\<forall>j\<in>fst ` set pm. resolveKey sneakers j = Some k \<longrightarrow> j = i0"
    by (auto simp: e)
  note IH = Cons.IH [OF d Cons.prems(2) u, of "addPrice sneakers (i, w) acc"]
  show ?case
  proof (cases "i = i0")
    case True
    with notin have "map_of pm i0 = None" by (simp add: map_of_eq_None_iff)
    with IH True e Cons.prems(2) show ?thesis
      by (simp add: addPrice_resolve AList.update_conv')
  next
    case False
    with Cons.prems(3) e have "resolveKey sneakers i \<noteq> Some k" by auto
    then have "map_of (addPrice sneakers (i, w) acc) k = map_of acc k"
      by (cases "resolveKey sneakers i") (auto simp: addPrice_resolve AList.update_conv')
    with IH False e show ?thesis by (simp split: option.splits)
  qed
qed

lemma distinct_fold_addPrice:
  "distinct (map fst acc) \<Longrightarrow> distinct (map fst (fold (addPrice sneakers) pm acc))"
proof (induction pm arbitrary: acc)
  case Nil
  then show ?case by simp
next
  case (Cons e pm)
  obtain i v where e: "e = (i, v)" by (cases e)
  from Cons.prems have "distinct (map fst (addPrice sneakers e acc))"
    by (cases "resolveKey sneakers i") (simp_all add: e addPrice_resolve AList.distinct_update)
  from Cons.IH [OF this] show ?case by simp
qed

lemma distinct_series_buildRow: "distinct (map fst (series (buildRow sneakers bucket)))"
  by (simp add: buildRow_def distinct_fold_addPrice)

lemma filter_key_distinct:
  assumes "distinct (map fst g)" and "(d, m) \<in> set g"
  shows "filter (\<lambda>kv. fst kv = d) g = [(d, m)]"
  using assms
proof (induction g)
  case Nil
  then show ?case by simp
next
  case (Cons e g)
  show ?case
  proof (cases "e = (d, m)")
    case True
    with Cons.prems(1) have "d \<notin> fst ` set g" by auto
    then have "filter (\<lambda>kv. fst kv = d) g = []"
      by (auto simp: filter_empty_conv)
    with True show ?thesis by simp
  next
    case False
    with Cons.prems(2) have mem: "(d, m) \<in> set g" by simp
    then have "d \<in> fst ` set g" by force
    with Cons.prems(1) have "fst e \<noteq> d" by auto
    with Cons.IH mem Cons.prems(1) show ?thesis by simp
  qed
qed

lemma distinct_map_sort_key:
  "distinct (map f (sort_key f xs)) = distinct (map f xs)"
  by (induction xs) (simp_all add: distinct_insort_key)

lemma timestamp_buildRow: "map ChartData.timestamp (map (buildRow sneakers) g) = map fst g"
  by (simp add: buildRow_def comp_def)

lemma transformPriceData_InrD:
  assumes "transformPriceData parse pricePoints sneakers = Inr rows"
    and "pricePoints \<noteq> []" and "sneakers \<noteq> []"
  shows "\<exists>g. groupPoints parse pricePoints [] = Inr g
             \<and> rows = sort_key ChartData.timestamp (map (buildRow sneakers) g)"
  using assms by (auto simp: transformPriceData_def split: sum.splits)

lemma transformPriceData_total:
  assumes "\<forall>p\<in>set pricePoints. parse (PricePoint.timestamp p) \<noteq> None"
  shows "\<exists>rows. transformPriceData parse pricePoints sneakers = Inr rows"
proof -
  from groupPoints_total [OF assms, of "[]"] obtain g where
    "groupPoints parse pricePoints [] = Inr g" by blast
  then show ?thesis by (simp add: transformPriceData_def)
qed

lemma rows_of_day:
  assumes "distinct (map fst g)" and "(d, m) \<in> set g"
  shows "filter (\<lambda>r. ChartData.timestamp r = d)
           (sort_key ChartData.timestamp (map (buildRow sneakers) g))
         = [buildRow sneakers (d, m)]"
proof -
  have "filter (\<lambda>r. ChartData.timestamp r = d) (map (buildRow sneakers) g)
        = map (buildRow sneakers) (filter (\<lambda>kv. fst kv = d) g)"
    by (simp add: filter_map comp_def buildRow_def)
  with filter_key_distinct [OF assms] show ?thesis
    by (simp add: filter_sort)
qed

lemma transformPriceData_rows:
  assumes "transformPriceData parse pricePoints sneakers = Inr rows"
    and "sneakers \<noteq> []" and "point \<in> set pricePoints" and "inBucket parse point day"
  shows "\<exists>g m. groupPoints parse pricePoints [] = Inr g \<and> distinct (map fst g)
           \<and> (day, m) \<in> set g
           \<and> filter (\<lambda>r. ChartData.timestamp r = day) rows = [buildRow sneakers (day, m)]"
proof -
  from assms(3) have ne: "pricePoints \<noteq> []" by auto
  from transformPriceData_InrD [OF assms(1) ne assms(2)] obtain g where
    g: "groupPoints parse pricePoints [] = Inr g" and
    rows: "rows = sort_key ChartData.timestamp (map (buildRow sneakers) g)"
    by auto
  from groupPoints_distinct [OF g] have dist: "distinct (map fst g)" by simp
  from groupPoints_keys [OF g, of day] assms(3,4) have "day \<in> fst ` set g" by auto
  then obtain m where m: "(day, m) \<in> set g" by auto
  from rows_of_day [OF dist m, of sneakers] rows g dist m show ?thesis by auto
qed

text \<open>The examples, evaluated.\<close>

lemma example_times:
  "utcTime 2025 1 1 0 0 0 = 1735689600000"
  "utcTime 2025 1 1 2 0 0 = 1735696800000"
  "utcTime 2025 1 1 23 0 0 = 1735772400000"
  "utcTime 2025 1 2 0 0 0 = 1735776000000"
  "utcTime 2025 1 2 10 0 0 = 1735812000000"
  by (simp_all add: utcTime_def DayFromYear_def)

lemma exampleParse_table:
  "exampleParse =
     map_of [(''2025-01-01T02:00:00Z'', 1735696800000),
             (''2025-01-01T23:00:00Z'', 1735772400000),
             (''2025-01-02T10:00:00Z'', 1735812000000)]"
  by (simp only: exampleParse_def example_times)

lemmas example_defs =
  transformPriceData_def groupPoint_def normalizeTimestamp_def exampleParse_table msPerDay_def
  buildRow_def addPrice_def seriesKey_def sneakerOf_def pointOf_def Let_def

lemma example_rows:
  "transformPriceData exampleParse examplePoints exampleSneakers = Inr exampleRows"
  by (simp add: example_defs examplePoints_def exampleSneakers_def exampleRows_def)

lemma unknown_rows:
  "transformPriceData exampleParse unknownPoints exampleSneakers
   = Inr [\<lparr>ChartData.timestamp = 1735689600000, series = [(''Air - Red'', Fin 100)]\<rparr>,
          \<lparr>ChartData.timestamp = 1735776000000, series = []\<rparr>]"
  by (simp add: example_defs unknownPoints_def exampleSneakers_def)

lemma unknown_parse: "\<forall>p\<in>set unknownPoints. exampleParse (PricePoint.timestamp p) \<noteq> None"
  by (simp add: unknownPoints_def exampleParse_table pointOf_def)

subsection \<open>Empty inputs\<close>

text \<open>
  Claim C7. For every entity list and every sample list, \<^verbatim>\<open>transformPriceData\<close> returns
  the empty list when the sample list is empty and when the entity list is empty, whatever
  the other argument and the date parser are; the guard of \<^verbatim>\<open>useChartData\<close> gives the
  same. No bucket is made up.
\<close>

theorem transformPriceData_empty_input:
  "transformPriceData parse [] sneakers = Inr []
   \<and> transformPriceData parse pricePoints [] = Inr []
   \<and> useChartData parse [] sneakers = Inr []
   \<and> useChartData parse pricePoints [] = Inr []"
  by (simp add: transformPriceData_def useChartData_def)

subsection \<open>Statistics\<close>






text \<open>
  The exponent is the right one, and rounding goes to a multiple of the spacing at most
  half a spacing away.
\<close>

lemma bit_length_nonpos: "n \<le> 0 \<Longrightarrow> bit_length n = 0"
  by (subst bit_length.simps) simp

lemma bit_length_pos: "0 < n \<Longrightarrow> bit_length n = 1 + bit_length (n div 2)"
  by (subst bit_length.simps) simp

lemma bit_length_bounds:
  "0 < n \<Longrightarrow> 1 \<le> bit_length n \<and> 2 ^ nat (bit_length n - 1) \<le> n \<and> n < 2 ^ nat (bit_length n)"
proof (induction n rule: bit_length.induct)
  case (1 n)
  show ?case
  proof (cases "n div 2 \<le> 0")
    case True
    with "1.prems" have n: "n = 1" by linarith
    have "bit_length 1 = 1" by (simp add: bit_length_pos bit_length_nonpos)
    with n show ?thesis by simp
  next
    case False
    then have pos: "0 < n div 2" by simp
    from "1.prems" have "\<not> n \<le> 0" by simp
    from "1.IH" [OF this pos] have
      b: "1 \<le> bit_length (n div 2)" and
      lo: "2 ^ nat (bit_length (n div 2) - 1) \<le> n div 2" and
      hi: "n div 2 < 2 ^ nat (bit_length (n div 2))"
      by simp_all
    let ?k = "bit_length (n div 2)"
    have bl: "bit_length n = 1 + ?k" using "1.prems" by (rule bit_length_pos)
    have e1: "nat (1 + ?k - 1) = Suc (nat (?k - 1))" using b by simp
    have e2: "nat (1 + ?k) = Suc (nat ?k)" using b by simp
    have e3: "(2::int) ^ nat ?k = 2 * 2 ^ nat (?k - 1)"
      using b by (metis e1 add_diff_cancel_left' power_Suc)
    from lo have "2 * 2 ^ nat (?k - 1) \<le> n" by linarith
    then have "2 ^ nat ?k \<le> n" by (simp only: e3)
    moreover from hi have "n < 2 * 2 ^ nat ?k" by linarith
    ultimately show ?thesis using b by (simp add: bl e2)
  qed
qed


lemma pow2_pos: "0 < pow2 e"
  by (simp add: pow2_def)

lemma pow2_nonneg: "0 \<le> e \<Longrightarrow> pow2 e = 2 ^ nat e"
  by (simp add: pow2_def)

lemma pow2_Suc: "pow2 (e + 1) = 2 * pow2 e"
proof (cases "0 \<le> e")
  case True
  then show ?thesis by (simp add: pow2_def nat_add_distrib)
next
  case False
  then have "nat (- e) = Suc (nat (- (e + 1)))" by simp
  with False show ?thesis by (auto simp: pow2_def)
qed

lemma pow2_neg: "pow2 (- e) = 1 / pow2 e"
  by (cases "e = 0") (auto simp: pow2_def)

lemma ilog2_bounds:
  assumes "q \<noteq> 0"
  shows "pow2 (ilog2 q) \<le> \<bar>q\<bar> \<and> \<bar>q\<bar> < pow2 (ilog2 q + 1)"
proof (cases "1 \<le> \<bar>q\<bar>")
  case True
  let ?n = "\<lfloor>\<bar>q\<bar>\<rfloor>"
  from True have n: "0 < ?n" by linarith
  from bit_length_bounds [OF n] have
    b: "1 \<le> bit_length ?n" and
    lo: "2 ^ nat (bit_length ?n - 1) \<le> ?n" and
    hi: "?n < 2 ^ nat (bit_length ?n)"
    by simp_all
  have e: "ilog2 q = bit_length ?n - 1" using True by (simp add: ilog2_def)
  have "pow2 (bit_length ?n - 1) = of_int (2 ^ nat (bit_length ?n - 1))"
    using b by (simp add: pow2_nonneg)
  also have "\<dots> \<le> of_int ?n" using lo by (simp only: of_int_le_iff)
  also have "\<dots> \<le> \<bar>q\<bar>" by simp
  finally have l: "pow2 (ilog2 q) \<le> \<bar>q\<bar>" by (simp only: e)
  from hi have "?n + 1 \<le> 2 ^ nat (bit_length ?n)" by simp
  then have "(of_int (?n + 1) :: rat) \<le> of_int (2 ^ nat (bit_length ?n))"
    by (simp only: of_int_le_iff)
  moreover have "\<bar>q\<bar> < of_int (?n + 1)" by linarith
  ultimately have "\<bar>q\<bar> < of_int (2 ^ nat (bit_length ?n))" by linarith
  also have "\<dots> = pow2 (bit_length ?n)" using b by (simp add: pow2_nonneg)
  finally have "\<bar>q\<bar> < pow2 (ilog2 q + 1)" by (simp add: e)
  with l show ?thesis by simp
next
  case False
  let ?p = "1 / \<bar>q\<bar>"
  let ?m = "\<lceil>?p\<rceil> - 1"
  let ?k = "bit_length ?m"
  from False assms have q: "0 < \<bar>q\<bar>" "\<bar>q\<bar> < 1" by simp_all
  then have p: "1 < ?p" by simp
  then have m: "0 < ?m" by linarith
  from bit_length_bounds [OF m] have
    b: "1 \<le> ?k" and
    lo: "2 ^ nat (?k - 1) \<le> ?m" and
    hi: "?m < 2 ^ nat ?k"
    by simp_all
  have e: "ilog2 q = - ?k" using False by (simp add: ilog2_def)
  from hi have "\<lceil>?p\<rceil> \<le> 2 ^ nat ?k" by simp
  then have "(of_int \<lceil>?p\<rceil> :: rat) \<le> of_int (2 ^ nat ?k)" by (simp only: of_int_le_iff)
  moreover have "?p \<le> of_int \<lceil>?p\<rceil>" by simp
  ultimately have "?p \<le> of_int (2 ^ nat ?k)" by linarith
  also have "\<dots> = pow2 ?k" using b by (simp add: pow2_nonneg)
  finally have "?p \<le> pow2 ?k" .
  then have "1 / pow2 ?k \<le> \<bar>q\<bar>"
    using q pow2_pos [of ?k] by (simp add: field_simps)
  then have l: "pow2 (ilog2 q) \<le> \<bar>q\<bar>" by (simp add: e pow2_neg)
  have "(of_int (2 ^ nat (?k - 1)) :: rat) \<le> of_int ?m" using lo by (simp only: of_int_le_iff)
  moreover have "of_int ?m < ?p" by linarith
  ultimately have "of_int (2 ^ nat (?k - 1)) < ?p" by linarith
  moreover have "of_int (2 ^ nat (?k - 1)) = pow2 (?k - 1)" using b by (simp add: pow2_nonneg)
  ultimately have "pow2 (?k - 1) < ?p" by simp
  then have "\<bar>q\<bar> < 1 / pow2 (?k - 1)"
    using q pow2_pos [of "?k - 1"] by (simp add: field_simps)
  then have "\<bar>q\<bar> < pow2 (- (?k - 1))" by (simp only: pow2_neg)
  then have "\<bar>q\<bar> < pow2 (ilog2 q + 1)" by (simp add: e)
  with l show ?thesis by simp
qed

lemma quantum_pos: "0 < quantum q"
  by (simp add: quantum_def pow2_pos)

lemma round_half_even_near: "\<bar>of_int (round_half_even x) - x\<bar> \<le> 1 / 2"
proof -
  let ?d = "x - of_int \<lfloor>x\<rfloor>"
  have d: "0 \<le> ?d" "?d < 1" by linarith+
  consider "?d < 1 / 2" | "1 / 2 < ?d" | "?d = 1 / 2" by linarith
  then show ?thesis
  proof cases
    case 1
    then have "round_half_even x = \<lfloor>x\<rfloor>" by (simp add: round_half_even_def)
    with 1 d show ?thesis by simp
  next
    case 2
    then have "round_half_even x = \<lfloor>x\<rfloor> + 1" by (simp add: round_half_even_def)
    with 2 d show ?thesis by simp
  next
    case 3
    then have "round_half_even x = \<lfloor>x\<rfloor> \<or> round_half_even x = \<lfloor>x\<rfloor> + 1"
      by (simp add: round_half_even_def Let_def)
    with 3 show ?thesis by auto
  qed
qed

lemma round_double_near:
  assumes "round_double q = Fin r"
  shows "\<bar>r - q\<bar> \<le> quantum q / 2"
proof -
  let ?u = "quantum q"
  let ?n = "round_half_even (q / ?u)"
  have u: "0 < ?u" by (rule quantum_pos)
  from assms have r: "r = of_int ?n * ?u"
    by (auto simp: round_double_def Let_def inf_signed_def split: if_splits)
  have "\<bar>of_int ?n - q / ?u\<bar> \<le> 1 / 2" by (rule round_half_even_near)
  then have "\<bar>of_int ?n - q / ?u\<bar> * ?u \<le> 1 / 2 * ?u"
    using u by (simp only: mult_le_cancel_right_pos)
  moreover have "\<bar>of_int ?n - q / ?u\<bar> * ?u = \<bar>of_int ?n * ?u - q\<bar>"
  proof -
    have "\<bar>of_int ?n - q / ?u\<bar> * ?u = \<bar>(of_int ?n - q / ?u) * ?u\<bar>"
      using u by (simp add: abs_mult)
    also have "(of_int ?n - q / ?u) * ?u = of_int ?n * ?u - q"
      using u by (simp add: field_simps)
    finally show ?thesis .
  qed
  ultimately show ?thesis by (simp add: r)
qed







text \<open>
  Some results of the operations: 0.1 + 0.2 is 0.30000000000000004, 1000.1 - 0.7 is
  999.4, 0.07 * 100 is 7.000000000000001 and 7 / 100 is the double nearest to 0.07, each
  operand being the double nearest to the decimal; and the results at a zero.
\<close>

lemma known_roundings:
  "js_add (Fin (3602879701896397 / 36028797018963968)) (Fin (3602879701896397 / 18014398509481984))
   = Fin (1351079888211149 / 4503599627370496)"
  "js_sub (Fin (8796972631510221 / 8796093022208)) (Fin (3152519739159347 / 4503599627370496))
   = Fin (8790815366394675 / 8796093022208)"
  "js_mul (Fin (1261007895663739 / 18014398509481984)) (Fin 100)
   = Fin (7881299347898369 / 1125899906842624)"
  "js_div (Fin 7) (Fin 100) = Fin (1261007895663739 / 18014398509481984)"
  "js_div (Fin 1) (Fin 0) = PosInf"
  "js_div (Fin 1) NegZero = NegInf"
  "js_div (Fin 0) (Fin 0) = NaN"
  "js_mul NegZero (Fin 100) = NegZero"
  by code_simp+

text \<open>
  The percentage of an entity of retail price 100 with one sample of price 107: the
  change 7 is exact, 7 / 100 and its product with 100 are rounded, and the result is
  7.000000000000001.
\<close>

lemma percent_rounding_example:
  "price_change_percent
     (calculateStats (sneakerOf 1 ''Air'' (Some ''Red'') (Fin 100)) [pointOf ''t1'' (Fin 107) 1])
   = Fin (7881299347898369 / 1125899906842624)"
  by code_simp

lemma calculatePriceChange_zero:
  "calculatePriceChange (Fin 0) (Fin c) = (if 0 < c then PosInf else if c < 0 then NegInf else NaN)"
  by (auto simp: calculatePriceChange_def js_sub_def js_add_def js_div_def js_mul_def
        inf_signed_def zero_signed_def)

text \<open>
  Claim C3. For every entity, when no sample has the entity's id, \<^verbatim>\<open>calculateStats\<close>
  returns the entity's retail price as current, retail, minimum, maximum and average
  price, and 0 as price change and as price change percent.
\<close>

theorem calculateStats_no_samples:
  assumes "filter (\<lambda>p. PricePoint.sneaker_id p = Sneaker.sneaker_id sneaker) pricePoints = []"
  shows "current_price (calculateStats sneaker pricePoints) = Sneaker.price sneaker
    \<and> retail_price (calculateStats sneaker pricePoints) = Sneaker.price sneaker
    \<and> min_price (calculateStats sneaker pricePoints) = Sneaker.price sneaker
    \<and> max_price (calculateStats sneaker pricePoints) = Sneaker.price sneaker
    \<and> avg_price (calculateStats sneaker pricePoints) = Sneaker.price sneaker
    \<and> price_change (calculateStats sneaker pricePoints) = Fin 0
    \<and> price_change_percent (calculateStats sneaker pricePoints) = Fin 0"
  using assms by (simp add: calculateStats_def)

theorem calculateStats_no_samples_witness:
  "filter (\<lambda>p. PricePoint.sneaker_id p = Sneaker.sneaker_id (sneakerOf 1 ''Air'' (Some ''Red'') (Fin 120)))
     [pointOf ''t1'' (Fin 95) 2] = []
   \<and> (let st = calculateStats (sneakerOf 1 ''Air'' (Some ''Red'') (Fin 120)) [pointOf ''t1'' (Fin 95) 2]
      in current_price st = Fin 120 \<and> retail_price st = Fin 120 \<and> min_price st = Fin 120
         \<and> max_price st = Fin 120 \<and> avg_price st = Fin 120 \<and> price_change st = Fin 0
         \<and> price_change_percent st = Fin 0)"
proof -
  have h: "filter (\<lambda>p. PricePoint.sneaker_id p = Sneaker.sneaker_id (sneakerOf 1 ''Air'' (Some ''Red'') (Fin 120)))
     [pointOf ''t1'' (Fin 95) 2] = []"
    by (simp add: sneakerOf_def pointOf_def)
  have p: "Sneaker.price (sneakerOf 1 ''Air'' (Some ''Red'') (Fin 120)) = Fin 120"
    by (simp add: sneakerOf_def)
  show ?thesis
    using h p calculateStats_no_samples [OF h] by (simp add: Let_def)
qed




text \<open>
  Claim C4, as stated: with a retail price of zero the percentage is a sentinel, never an
  infinity. The code divides without a guard: an entity with retail price 0 and one
  sample of price 100 gets the percentage \<open>+Infinity\<close>.
\<close>

theorem zero_retail_price_counterexample:
  "Sneaker.price (sneakerOf 1 ''Air'' (Some ''Red'') (Fin 0)) = Fin 0
   \<and> filter (\<lambda>p. PricePoint.sneaker_id p = 1) [pointOf ''t1'' (Fin 100) 1] \<noteq> []
   \<and> price_change_percent
        (calculateStats (sneakerOf 1 ''Air'' (Some ''Red'') (Fin 0)) [pointOf ''t1'' (Fin 100) 1])
      = PosInf"
  by (simp add: calculateStats_def sneakerOf_def pointOf_def Let_def calculatePriceChange_def
        js_sub_def js_add_def js_div_def js_mul_def inf_signed_def zero_signed_def)

text \<open>
  Claim C4, amended. For every entity whose retail price is zero and every sample list
  whose samples of that entity are not empty and end in a finite price \<open>c\<close>,
  \<^verbatim>\<open>calculateStats\<close> divides by zero without a guard: the percentage is \<open>+Infinity\<close>
  when \<open>c\<close> is positive, \<open>-Infinity\<close> when \<open>c\<close> is negative, and not-a-number only
  when \<open>c\<close> is zero.
\<close>

theorem zero_retail_price_percent:
  assumes "filter (\<lambda>p. PricePoint.sneaker_id p = Sneaker.sneaker_id sneaker) pricePoints = sneakerPrices"
    and "sneakerPrices \<noteq> []"
    and "PricePoint.price (last sneakerPrices) = Fin c"
    and "Sneaker.price sneaker = Fin 0"
  shows "price_change_percent (calculateStats sneaker pricePoints)
         = (if 0 < c then PosInf else if c < 0 then NegInf else NaN)"
proof -
  let ?prices = "map PricePoint.price sneakerPrices"
  have "?prices ! (length ?prices - 1) = last ?prices"
    using assms(2) by (simp add: last_conv_nth)
  then have "?prices ! (length ?prices - 1) = Fin c"
    using assms(2,3) by (simp add: last_map)
  then have "price_change_percent (calculateStats sneaker pricePoints)
             = calculatePriceChange (Fin 0) (Fin c)"
    using assms(1,2,4) by (simp add: calculateStats_def Let_def)
  then show ?thesis by (simp only: calculatePriceChange_zero)
qed

theorem zero_retail_price_percent_witness:
  "price_change_percent
     (calculateStats (sneakerOf 1 ''Air'' (Some ''Red'') (Fin 0))
        [pointOf ''t1'' (Fin 80) 1, pointOf ''t2'' (Fin 100) 1]) = PosInf
   \<and> price_change_percent
     (calculateStats (sneakerOf 1 ''Air'' (Some ''Red'') (Fin 0))
        [pointOf ''t1'' (Fin 80) 1, pointOf ''t2'' (Fin 0) 1]) = NaN"
proof -
  let ?s = "sneakerOf 1 ''Air'' (Some ''Red'') (Fin 0)"
  let ?ps = "[pointOf ''t1'' (Fin 80) 1, pointOf ''t2'' (Fin 100) 1]"
  let ?qs = "[pointOf ''t1'' (Fin 80) 1, pointOf ''t2'' (Fin 0) 1]"
  have h1: "filter (\<lambda>p. PricePoint.sneaker_id p = Sneaker.sneaker_id ?s) ?ps = ?ps"
    and g1: "filter (\<lambda>p. PricePoint.sneaker_id p = Sneaker.sneaker_id ?s) ?qs = ?qs"
    by (simp_all add: sneakerOf_def pointOf_def)
  have h2: "?ps \<noteq> []" and g2: "?qs \<noteq> []" by simp_all
  have h3: "PricePoint.price (last ?ps) = Fin 100" and g3: "PricePoint.price (last ?qs) = Fin 0"
    by (simp_all add: pointOf_def)
  have h4: "Sneaker.price ?s = Fin 0" by (simp add: sneakerOf_def)
  show ?thesis
    using zero_retail_price_percent [OF h1 h2 h3 h4] zero_retail_price_percent [OF g1 g2 g3 h4]
    by simp
qed

subsection \<open>The chart rows\<close>

text \<open>
  Claim C5. For every sample list and entity list on which \<^verbatim>\<open>transformPriceData\<close>
  returns, the timestamps of the rows it returns are strictly increasing, and so pairwise
  distinct.
\<close>

theorem transformPriceData_strictly_increasing:
  assumes "transformPriceData parse pricePoints sneakers = Inr rows"
  shows "sorted_wrt (<) (map ChartData.timestamp rows)
         \<and> distinct (map ChartData.timestamp rows)"
proof (cases "pricePoints = [] \<or> sneakers = []")
  case True
  with assms have "rows = []" by (auto simp: transformPriceData_def)
  then show ?thesis by simp
next
  case False
  with transformPriceData_InrD [OF assms] obtain g where
    g: "groupPoints parse pricePoints [] = Inr g" and
    rows: "rows = sort_key ChartData.timestamp (map (buildRow sneakers) g)"
    by auto
  from groupPoints_distinct [OF g] have "distinct (map fst g)" by simp
  then have d: "distinct (map ChartData.timestamp rows)"
    by (simp only: rows distinct_map_sort_key timestamp_buildRow)
  have "sorted (map ChartData.timestamp rows)"
    by (simp only: rows sorted_sort_key)
  with d show ?thesis by (simp add: strict_sorted_iff)
qed

theorem transformPriceData_strictly_increasing_witness:
  "transformPriceData exampleParse
     [pointOf ''2025-01-02T10:00:00Z'' (Fin 130) 1,
      pointOf ''2025-01-01T02:00:00Z'' (Fin 100) 1,
      pointOf ''2025-01-01T23:00:00Z'' (Fin 200) 2]
     exampleSneakers
   = Inr [\<lparr>ChartData.timestamp = 1735689600000,
            series = [(''Air - Red'', Fin 100), (''Zoom - undefined'', Fin 200)]\<rparr>,
          \<lparr>ChartData.timestamp = 1735776000000, series = [(''Air - Red'', Fin 130)]\<rparr>]
   \<and> sorted_wrt (<) [1735689600000, 1735776000000 :: int]
   \<and> distinct [1735689600000, 1735776000000 :: int]"
proof -
  have h: "transformPriceData exampleParse
     [pointOf ''2025-01-02T10:00:00Z'' (Fin 130) 1,
      pointOf ''2025-01-01T02:00:00Z'' (Fin 100) 1,
      pointOf ''2025-01-01T23:00:00Z'' (Fin 200) 2]
     exampleSneakers
   = Inr [\<lparr>ChartData.timestamp = 1735689600000,
            series = [(''Air - Red'', Fin 100), (''Zoom - undefined'', Fin 200)]\<rparr>,
          \<lparr>ChartData.timestamp = 1735776000000, series = [(''Air - Red'', Fin 130)]\<rparr>]"
    by (simp add: example_defs exampleSneakers_def)
  from transformPriceData_strictly_increasing [OF h]
  have "sorted_wrt (<) [1735689600000, 1735776000000 :: int]
        \<and> distinct [1735689600000, 1735776000000 :: int]"
    by (simp only: list.map ChartData.simps)
  with h show ?thesis by (simp only: simp_thms)
qed

text \<open>
  Claim C8. For every sample with a valid timestamp \<open>t\<close>, \<^verbatim>\<open>normalizeTimestamp\<close> gives
  the UTC midnight at or before \<open>t\<close>: a multiple \<open>day\<close> of 86400000 milliseconds with
  \<open>day \<le> t < day + 86400000\<close>. Every sample of the list whose time value lies in the
  same UTC day is normalised to the same \<open>day\<close>, and the rows \<^verbatim>\<open>transformPriceData\<close>
  returns hold exactly one row with that timestamp, in which no series key occurs twice.
  The witness is the example of the specification: samples of one entity at 02:00 and at
  23:00 of 2025-01-01 give one row, dated 2025-01-01T00:00:00Z, with one entry.
\<close>

theorem normalizeTimestamp_utc_day_bucket:
  assumes "transformPriceData parse pricePoints sneakers = Inr rows"
    and "sneakers \<noteq> []"
    and "point \<in> set pricePoints"
    and "parse (PricePoint.timestamp point) = Some t"
  shows "\<exists>day. normalizeTimestamp parse (PricePoint.timestamp point) = Inr day
           \<and> day mod 86400000 = 0 \<and> day \<le> t \<and> t < day + 86400000
           \<and> (\<exists>row. filter (\<lambda>r. ChartData.timestamp r = day) rows = [row]
                  \<and> distinct (map fst (series row)))
           \<and> (\<forall>q\<in>set pricePoints. \<forall>u. parse (PricePoint.timestamp q) = Some u
                  \<and> u div 86400000 = t div 86400000
                \<longrightarrow> normalizeTimestamp parse (PricePoint.timestamp q) = Inr day)"
proof -
  let ?day = "t div 86400000 * 86400000"
  have b: "inBucket parse point ?day"
    using assms(4) by (simp add: inBucket_iff)
  then have n: "normalizeTimestamp parse (PricePoint.timestamp point) = Inr ?day"
    by (simp add: inBucket_def)
  from transformPriceData_rows [OF assms(1,2,3) b] obtain m where
    "filter (\<lambda>r. ChartData.timestamp r = ?day) rows = [buildRow sneakers (?day, m)]"
    by blast
  with distinct_series_buildRow [of sneakers "(?day, m)"]
  have one: "\<exists>row. filter (\<lambda>r. ChartData.timestamp r = ?day) rows = [row]
                  \<and> distinct (map fst (series row))"
    by blast
  have same: "\<forall>q\<in>set pricePoints. \<forall>u. parse (PricePoint.timestamp q) = Some u
                  \<and> u div 86400000 = t div 86400000
                \<longrightarrow> normalizeTimestamp parse (PricePoint.timestamp q) = Inr ?day"
    by (simp add: normalizeTimestamp_def msPerDay_def)
  show ?thesis
  proof (rule exI [of _ ?day], intro conjI)
    show "normalizeTimestamp parse (PricePoint.timestamp point) = Inr ?day" by (rule n)
    show "?day mod 86400000 = 0" by (rule day_bounds)
    show "?day \<le> t" by (rule day_bounds)
    show "t < ?day + 86400000" by (rule day_bounds)
    show "\<exists>row. filter (\<lambda>r. ChartData.timestamp r = ?day) rows = [row]
                  \<and> distinct (map fst (series row))" by (rule one)
    show "\<forall>q\<in>set pricePoints. \<forall>u. parse (PricePoint.timestamp q) = Some u
                  \<and> u div 86400000 = t div 86400000
                \<longrightarrow> normalizeTimestamp parse (PricePoint.timestamp q) = Inr ?day"
      by (rule same)
  qed
qed

theorem normalizeTimestamp_utc_day_bucket_witness:
  "normalizeTimestamp exampleParse ''2025-01-01T02:00:00Z'' = Inr 1735689600000
   \<and> normalizeTimestamp exampleParse ''2025-01-01T23:00:00Z'' = Inr 1735689600000
   \<and> transformPriceData exampleParse
        [pointOf ''2025-01-01T02:00:00Z'' (Fin 100) 1, pointOf ''2025-01-01T23:00:00Z'' (Fin 110) 1]
        exampleSneakers
      = Inr [\<lparr>ChartData.timestamp = 1735689600000, series = [(''Air - Red'', Fin 110)]\<rparr>]
   \<and> (\<exists>row. filter (\<lambda>r. ChartData.timestamp r = 1735689600000)
               [\<lparr>ChartData.timestamp = 1735689600000, series = [(''Air - Red'', Fin 110)]\<rparr>]
             = [row]
          \<and> distinct (map fst (series row)))"
proof -
  let ?p1 = "pointOf ''2025-01-01T02:00:00Z'' (Fin 100) 1"
  let ?p2 = "pointOf ''2025-01-01T23:00:00Z'' (Fin 110) 1"
  have h1: "transformPriceData exampleParse [?p1, ?p2] exampleSneakers
      = Inr [\<lparr>ChartData.timestamp = 1735689600000, series = [(''Air - Red'', Fin 110)]\<rparr>]"
    by (simp add: example_defs exampleSneakers_def)
  have h2: "exampleSneakers \<noteq> []" by (simp add: exampleSneakers_def)
  have h3: "?p1 \<in> set [?p1, ?p2]" by simp
  have h4: "exampleParse (PricePoint.timestamp ?p1) = Some 1735696800000"
    by (simp add: exampleParse_table pointOf_def)
  have u: "exampleParse (PricePoint.timestamp ?p2) = Some 1735772400000
           \<and> (1735772400000 :: int) div 86400000 = 1735696800000 div 86400000"
    by (simp add: exampleParse_table pointOf_def)
  from normalizeTimestamp_utc_day_bucket [OF h1 h2 h3 h4] obtain day where
    d1: "normalizeTimestamp exampleParse (PricePoint.timestamp ?p1) = Inr day" and
    one: "\<exists>row. filter (\<lambda>r. ChartData.timestamp r = day)
        [\<lparr>ChartData.timestamp = 1735689600000, series = [(''Air - Red'', Fin 110)]\<rparr>] = [row]
        \<and> distinct (map fst (series row))" and
    same: "\<forall>q\<in>set [?p1, ?p2]. \<forall>u. exampleParse (PricePoint.timestamp q) = Some u
                  \<and> u div 86400000 = 1735696800000 div 86400000
                \<longrightarrow> normalizeTimestamp exampleParse (PricePoint.timestamp q) = Inr day"
    by blast
  from same u have d2: "normalizeTimestamp exampleParse (PricePoint.timestamp ?p2) = Inr day"
    by simp
  have "normalizeTimestamp exampleParse (PricePoint.timestamp ?p1) = Inr 1735689600000"
    by (simp add: example_defs)
  with d1 have day: "day = 1735689600000" by simp
  from d1 d2 one h1 show ?thesis
    by (simp only: day pointOf_def PricePoint.simps simp_thms)
qed

text \<open>
  Claim C6. For every sample list whose timestamps are valid dates and every entity list,
  \<^verbatim>\<open>transformPriceData\<close> returns rows and raises nothing, whatever entity ids the
  samples carry; and every series entry of every row is the key of an entity of the list
  together with the price of a sample of that entity falling on the row's day. A sample
  whose entity id is not in the list therefore leaves no key and no value in any row. The
  witness has samples of entity 99 and entities 1 and 2.
\<close>

theorem transformPriceData_drops_unknown_entity:
  assumes "\<forall>p\<in>set pricePoints. parse (PricePoint.timestamp p) \<noteq> None"
  shows "\<exists>rows. transformPriceData parse pricePoints sneakers = Inr rows
           \<and> (\<forall>row\<in>set rows. \<forall>(key, val)\<in>set (series row).
                 \<exists>s\<in>set sneakers. \<exists>p\<in>set pricePoints.
                   key = seriesKey s
                   \<and> PricePoint.sneaker_id p = Sneaker.sneaker_id s
                   \<and> PricePoint.price p = val
                   \<and> normalizeTimestamp parse (PricePoint.timestamp p)
                       = Inr (ChartData.timestamp row))"
proof -
  from transformPriceData_total [OF assms] obtain rows where
    rows: "transformPriceData parse pricePoints sneakers = Inr rows" by blast
  have "\<exists>s\<in>set sneakers. \<exists>p\<in>set pricePoints.
          key = seriesKey s \<and> PricePoint.sneaker_id p = Sneaker.sneaker_id s
          \<and> PricePoint.price p = val
          \<and> normalizeTimestamp parse (PricePoint.timestamp p) = Inr (ChartData.timestamp row)"
    if row: "row \<in> set rows" and kv: "(key, val) \<in> set (series row)" for row key val
  proof -
    from row rows have ne: "pricePoints \<noteq> []" "sneakers \<noteq> []"
      by (auto simp: transformPriceData_def split: if_splits)
    from transformPriceData_InrD [OF rows ne] obtain g where
      g: "groupPoints parse pricePoints [] = Inr g" and
      r: "rows = sort_key ChartData.timestamp (map (buildRow sneakers) g)"
      by auto
    from row r obtain d m where dm: "(d, m) \<in> set g" and rw: "row = buildRow sneakers (d, m)"
      by auto
    from kv rw have "(key, val) \<in> set (fold (addPrice sneakers) m [])"
      by (simp add: buildRow_def)
    from fold_addPrice_entries [OF this] obtain i where
      i: "(i, val) \<in> set m" and k: "resolveKey sneakers i = Some key" by auto
    from resolveKey_SomeD [OF k] obtain s where
      s: "s \<in> set sneakers" "Sneaker.sneaker_id s = i" "key = seriesKey s" by blast
    from bucket_entries [OF g dm i] obtain p where
      p: "p \<in> set pricePoints" "inBucket parse p d" "PricePoint.sneaker_id p = i"
         "PricePoint.price p = val" by blast
    from rw have "ChartData.timestamp row = d" by (simp add: buildRow_def)
    with s p show ?thesis by (auto simp: inBucket_def)
  qed
  with rows show ?thesis by blast
qed

theorem transformPriceData_drops_unknown_entity_witness:
  "(\<exists>rows. transformPriceData exampleParse unknownPoints exampleSneakers = Inr rows
       \<and> rows = [\<lparr>ChartData.timestamp = 1735689600000, series = [(''Air - Red'', Fin 100)]\<rparr>,
                 \<lparr>ChartData.timestamp = 1735776000000, series = []\<rparr>])
   \<and> (\<exists>s\<in>set exampleSneakers. \<exists>p\<in>set unknownPoints.
         ''Air - Red'' = seriesKey s
         \<and> PricePoint.sneaker_id p = Sneaker.sneaker_id s
         \<and> PricePoint.price p = Fin 100
         \<and> normalizeTimestamp exampleParse (PricePoint.timestamp p) = Inr 1735689600000)
   \<and> map Sneaker.sneaker_id exampleSneakers = [1, 2]
   \<and> map PricePoint.sneaker_id unknownPoints = [1, 99, 99]"
proof -
  let ?r1 = "\<lparr>ChartData.timestamp = 1735689600000, series = [(''Air - Red'', Fin 100)]\<rparr>"
  let ?r2 = "\<lparr>ChartData.timestamp = 1735776000000, series = []\<rparr>"
  from transformPriceData_drops_unknown_entity [OF unknown_parse, of exampleSneakers]
  obtain rows where
    r: "transformPriceData exampleParse unknownPoints exampleSneakers = Inr rows" and
    a: "\<forall>row\<in>set rows. \<forall>(key, val)\<in>set (series row).
       \<exists>s\<in>set exampleSneakers. \<exists>p\<in>set unknownPoints.
         key = seriesKey s \<and> PricePoint.sneaker_id p = Sneaker.sneaker_id s
         \<and> PricePoint.price p = val
         \<and> normalizeTimestamp exampleParse (PricePoint.timestamp p) = Inr (ChartData.timestamp row)"
    by blast
  from r unknown_rows have rows: "rows = [?r1, ?r2]" by simp
  then have "?r1 \<in> set rows" and "(''Air - Red'', Fin 100) \<in> set (series ?r1)" by simp_all
  with a have "\<exists>s\<in>set exampleSneakers. \<exists>p\<in>set unknownPoints.
         ''Air - Red'' = seriesKey s \<and> PricePoint.sneaker_id p = Sneaker.sneaker_id s
         \<and> PricePoint.price p = Fin 100
         \<and> normalizeTimestamp exampleParse (PricePoint.timestamp p)
             = Inr (ChartData.timestamp ?r1)"
    by fast
  then have b: "\<exists>s\<in>set exampleSneakers. \<exists>p\<in>set unknownPoints.
         ''Air - Red'' = seriesKey s \<and> PricePoint.sneaker_id p = Sneaker.sneaker_id s
         \<and> PricePoint.price p = Fin 100
         \<and> normalizeTimestamp exampleParse (PricePoint.timestamp p) = Inr 1735689600000"
    by simp
  have c: "map Sneaker.sneaker_id exampleSneakers = [1, 2]
           \<and> map PricePoint.sneaker_id unknownPoints = [1, 99, 99]"
    by (simp add: exampleSneakers_def unknownPoints_def sneakerOf_def pointOf_def)
  from r rows b c show ?thesis by blast
qed

text \<open>
  Claim C9. Whenever the timestamps are valid dates, the entity list is not empty and
  every sample falling on some day of the sample list carries an entity id that the entity
  list lacks, \<^verbatim>\<open>transformPriceData\<close> still returns exactly one row for that day, and the
  row has the timestamp and no series key at all. The witness is such an input: the only
  sample of 2025-01-02 is of entity 99.
\<close>

theorem transformPriceData_emits_empty_row:
  assumes "\<forall>p\<in>set pricePoints. parse (PricePoint.timestamp p) \<noteq> None"
    and "sneakers \<noteq> []"
    and "point \<in> set pricePoints"
    and "normalizeTimestamp parse (PricePoint.timestamp point) = Inr day"
    and "\<forall>q\<in>set pricePoints. normalizeTimestamp parse (PricePoint.timestamp q) = Inr day
           \<longrightarrow> PricePoint.sneaker_id q \<notin> Sneaker.sneaker_id ` set sneakers"
  shows "\<exists>rows. transformPriceData parse pricePoints sneakers = Inr rows
           \<and> filter (\<lambda>r. ChartData.timestamp r = day) rows
               = [\<lparr>ChartData.timestamp = day, series = []\<rparr>]"
proof -
  from transformPriceData_total [OF assms(1)] obtain rows where
    rows: "transformPriceData parse pricePoints sneakers = Inr rows" by blast
  from assms(4) have b: "inBucket parse point day" by (simp add: inBucket_def)
  from transformPriceData_rows [OF rows assms(2,3) b] obtain g m where
    g: "groupPoints parse pricePoints [] = Inr g" and
    dm: "(day, m) \<in> set g" and
    f: "filter (\<lambda>r. ChartData.timestamp r = day) rows = [buildRow sneakers (day, m)]"
    by blast
  have "\<forall>(i, v)\<in>set m. resolveKey sneakers i = None"
  proof (clarify)
    fix i v
    assume "(i, v) \<in> set m"
    from bucket_entries [OF g dm this] obtain p where
      "p \<in> set pricePoints" "inBucket parse p day" "PricePoint.sneaker_id p = i" by blast
    with assms(5) have "i \<notin> Sneaker.sneaker_id ` set sneakers"
      by (auto simp: inBucket_def)
    then show "resolveKey sneakers i = None" by (rule resolveKey_None)
  qed
  from fold_addPrice_unknown [OF this, of "[]"]
  have "buildRow sneakers (day, m) = \<lparr>ChartData.timestamp = day, series = []\<rparr>"
    by (simp add: buildRow_def)
  with rows f show ?thesis by simp
qed

theorem transformPriceData_emits_empty_row_witness:
  "(\<exists>rows. transformPriceData exampleParse unknownPoints exampleSneakers = Inr rows
       \<and> filter (\<lambda>r. ChartData.timestamp r = 1735776000000) rows
           = [\<lparr>ChartData.timestamp = 1735776000000, series = []\<rparr>])
   \<and> unknownPoints \<noteq> [] \<and> exampleSneakers \<noteq> []
   \<and> map Sneaker.sneaker_id exampleSneakers = [1, 2]
   \<and> map PricePoint.sneaker_id unknownPoints = [1, 99, 99]"
proof -
  let ?point = "pointOf ''2025-01-02T10:00:00Z'' (Fin 55) 99"
  have h2: "exampleSneakers \<noteq> []" by (simp add: exampleSneakers_def)
  have h3: "?point \<in> set unknownPoints" by (simp add: unknownPoints_def)
  have h4: "normalizeTimestamp exampleParse (PricePoint.timestamp ?point) = Inr 1735776000000"
    by (simp add: example_defs)
  have h5: "\<forall>q\<in>set unknownPoints.
              normalizeTimestamp exampleParse (PricePoint.timestamp q) = Inr 1735776000000
              \<longrightarrow> PricePoint.sneaker_id q \<notin> Sneaker.sneaker_id ` set exampleSneakers"
    by (simp add: example_defs unknownPoints_def exampleSneakers_def)
  from transformPriceData_emits_empty_row [OF unknown_parse h2 h3 h4 h5]
  show ?thesis
    by (simp add: exampleSneakers_def unknownPoints_def sneakerOf_def pointOf_def)
qed

text \<open>
  Two entities of different ids with the same name and colorway share one series key, and
  then share one field of the row: the entry of the id inserted later in the day's bucket
  overwrites the other.
\<close>

lemma series_key_collision:
  "transformPriceData exampleParse
     [pointOf ''2025-01-01T02:00:00Z'' (Fin 100) 1, pointOf ''2025-01-01T02:00:00Z'' (Fin 200) 2]
     [sneakerOf 1 ''Air'' (Some ''Red'') (Fin 100), sneakerOf 2 ''Air'' (Some ''Red'') (Fin 150)]
   = Inr [\<lparr>ChartData.timestamp = 1735689600000, series = [(''Air - Red'', Fin 200)]\<rparr>]"
  by (simp add: example_defs)

text \<open>
  Claim C1, as stated: the bucket value is the price of the sample with the latest
  timestamp of the day. The code keeps the sample that comes last in the list it is given
  and never compares timestamps: given the 23:00 sample of price 110 before the 02:00
  sample of price 100, the bucket shows 100.
\<close>

theorem latest_timestamp_counterexample:
  "transformPriceData exampleParse
     [pointOf ''2025-01-01T23:00:00Z'' (Fin 110) 1, pointOf ''2025-01-01T02:00:00Z'' (Fin 100) 1]
     [sneakerOf 1 ''Air'' (Some ''Red'') (Fin 100)]
   = Inr [\<lparr>ChartData.timestamp = 1735689600000, series = [(''Air - Red'', Fin 100)]\<rparr>]
   \<and> exampleParse ''2025-01-01T23:00:00Z'' = Some 1735772400000
   \<and> exampleParse ''2025-01-01T02:00:00Z'' = Some 1735696800000
   \<and> (1735696800000 :: int) < 1735772400000"
  by (simp add: example_defs)

text \<open>
  Claim C1, amended. For every sample list and entity list on which
  \<^verbatim>\<open>transformPriceData\<close> returns: when several samples fall in the same entity/day
  bucket, the one that comes last in the input list overwrites the others. If
  \<^verbatim>\<open>sneakers.find\<close> resolves the entity id to an entity whose series key no entity of
  another id shares, the one row of that day carries under that key the price of the last
  such sample in input order. When the input list is in ascending timestamp order, that
  sample has the latest timestamp of the bucket. The witness has prices 100 then 110 on one
  day, 110 observed later: the bucket shows 110.
\<close>

theorem transformPriceData_last_in_input_wins:
  assumes "transformPriceData parse pricePoints sneakers = Inr rows"
    and "pricePoints = earlier @ point # later"
    and "normalizeTimestamp parse (PricePoint.timestamp point) = Inr day"
    and "\<forall>q\<in>set later. \<not> (normalizeTimestamp parse (PricePoint.timestamp q) = Inr day
                            \<and> PricePoint.sneaker_id q = PricePoint.sneaker_id point)"
    and "find (\<lambda>s. Sneaker.sneaker_id s = PricePoint.sneaker_id point) sneakers = Some sneaker"
    and "\<forall>s\<in>set sneakers. seriesKey s = seriesKey sneaker
           \<longrightarrow> Sneaker.sneaker_id s = PricePoint.sneaker_id point"
  shows "(\<exists>row. filter (\<lambda>r. ChartData.timestamp r = day) rows = [row]
            \<and> map_of (series row) (seriesKey sneaker) = Some (PricePoint.price point))
         \<and> (sorted_wrt (\<lambda>a b. \<forall>ta tb. parse (PricePoint.timestamp a) = Some ta
                                \<and> parse (PricePoint.timestamp b) = Some tb \<longrightarrow> ta \<le> tb)
               pricePoints
             \<longrightarrow> (\<forall>q\<in>set pricePoints. \<forall>tq tp.
                    normalizeTimestamp parse (PricePoint.timestamp q) = Inr day
                    \<and> PricePoint.sneaker_id q = PricePoint.sneaker_id point
                    \<and> parse (PricePoint.timestamp q) = Some tq
                    \<and> parse (PricePoint.timestamp point) = Some tp
                  \<longrightarrow> tq \<le> tp))"
proof (rule conjI)
  let ?i = "PricePoint.sneaker_id point"
  let ?k = "seriesKey sneaker"
  from assms(5) have ne: "sneakers \<noteq> []" by auto
  from assms(2) have mem: "point \<in> set pricePoints" by simp
  from assms(3) have b: "inBucket parse point day" by (simp add: inBucket_def)
  from transformPriceData_rows [OF assms(1) ne mem b] obtain g m where
    g: "groupPoints parse pricePoints [] = Inr g" and
    dist: "distinct (map fst g)" and
    dm: "(day, m) \<in> set g" and
    f: "filter (\<lambda>r. ChartData.timestamp r = day) rows = [buildRow sneakers (day, m)]"
    by blast
  from groupPoints_inner_distinct [OF g] dm have dm_dist: "distinct (map fst m)" by auto
  from assms(4) have later: "\<forall>q\<in>set later. \<not> (inBucket parse q day
      \<and> PricePoint.sneaker_id q = ?i)" by (simp add: inBucket_def)
  from g assms(2) have "groupPoints parse (earlier @ point # later) [] = Inr g" by simp
  from groupPoints_last_wins [OF this b later]
  have "lookup2 g day ?i = Some (PricePoint.price point)" .
  with lookup2_bucket [OF dist dm] have val: "map_of m ?i = Some (PricePoint.price point)"
    by simp
  from assms(5) have rk: "resolveKey sneakers ?i = Some ?k" by (simp add: resolveKey_def)
  have uniq: "\<forall>i\<in>fst ` set m. resolveKey sneakers i = Some ?k \<longrightarrow> i = ?i"
  proof (intro ballI impI)
    fix i
    assume "resolveKey sneakers i = Some ?k"
    from resolveKey_SomeD [OF this] obtain s where
      "s \<in> set sneakers" "Sneaker.sneaker_id s = i" "?k = seriesKey s" by blast
    with assms(6) show "i = ?i" by auto
  qed
  from fold_addPrice_value [OF dm_dist rk uniq, of "[]"] val
  have "map_of (series (buildRow sneakers (day, m))) ?k = Some (PricePoint.price point)"
    by (simp add: buildRow_def)
  with f show "\<exists>row. filter (\<lambda>r. ChartData.timestamp r = day) rows = [row]
            \<and> map_of (series row) ?k = Some (PricePoint.price point)" by blast
next
  let ?le = "\<lambda>a b. \<forall>ta tb. parse (PricePoint.timestamp a) = Some ta
                                \<and> parse (PricePoint.timestamp b) = Some tb \<longrightarrow> ta \<le> tb"
  show "sorted_wrt ?le pricePoints
        \<longrightarrow> (\<forall>q\<in>set pricePoints. \<forall>tq tp.
                    normalizeTimestamp parse (PricePoint.timestamp q) = Inr day
                    \<and> PricePoint.sneaker_id q = PricePoint.sneaker_id point
                    \<and> parse (PricePoint.timestamp q) = Some tq
                    \<and> parse (PricePoint.timestamp point) = Some tp
                  \<longrightarrow> tq \<le> tp)"
  proof (intro impI ballI allI)
    fix q tq tp
    assume sorted: "sorted_wrt ?le pricePoints"
      and q: "q \<in> set pricePoints"
      and h: "normalizeTimestamp parse (PricePoint.timestamp q) = Inr day
              \<and> PricePoint.sneaker_id q = PricePoint.sneaker_id point
              \<and> parse (PricePoint.timestamp q) = Some tq
              \<and> parse (PricePoint.timestamp point) = Some tp"
    from sorted assms(2) have before: "\<forall>a\<in>set earlier. ?le a point"
      by (simp add: sorted_wrt_append)
    from q assms(2) have "q \<in> set earlier \<or> q = point \<or> q \<in> set later" by auto
    then show "tq \<le> tp"
    proof (elim disjE)
      assume "q \<in> set earlier"
      with before h show ?thesis by blast
    next
      assume "q = point"
      with h show ?thesis by auto
    next
      assume "q \<in> set later"
      with assms(4) h show ?thesis by blast
    qed
  qed
qed

theorem transformPriceData_last_in_input_wins_witness:
  "transformPriceData exampleParse examplePoints exampleSneakers = Inr exampleRows
   \<and> (\<exists>row. filter (\<lambda>r. ChartData.timestamp r = 1735689600000) exampleRows = [row]
          \<and> map_of (series row) ''Air - Red'' = Some (Fin 110))
   \<and> exampleParse ''2025-01-01T02:00:00Z'' = Some 1735696800000
   \<and> exampleParse ''2025-01-01T23:00:00Z'' = Some 1735772400000
   \<and> (1735696800000 :: int) \<le> 1735772400000"
proof -
  let ?first = "pointOf ''2025-01-01T02:00:00Z'' (Fin 100) 1"
  let ?point = "pointOf ''2025-01-01T23:00:00Z'' (Fin 110) 1"
  let ?sneaker = "sneakerOf 1 ''Air'' (Some ''Red'') (Fin 100)"
  let ?le = "\<lambda>a b. \<forall>ta tb. exampleParse (PricePoint.timestamp a) = Some ta
                \<and> exampleParse (PricePoint.timestamp b) = Some tb \<longrightarrow> ta \<le> tb"
  have h2: "examplePoints = [?first] @ ?point #
              [pointOf ''2025-01-01T23:00:00Z'' (Fin 200) 2,
               pointOf ''2025-01-02T10:00:00Z'' (Fin 130) 1]"
    by (simp add: examplePoints_def)
  have h3: "normalizeTimestamp exampleParse (PricePoint.timestamp ?point) = Inr 1735689600000"
    by (simp add: example_defs)
  have h4: "\<forall>q\<in>set [pointOf ''2025-01-01T23:00:00Z'' (Fin 200) 2,
                       pointOf ''2025-01-02T10:00:00Z'' (Fin 130) 1].
              \<not> (normalizeTimestamp exampleParse (PricePoint.timestamp q) = Inr 1735689600000
                 \<and> PricePoint.sneaker_id q = PricePoint.sneaker_id ?point)"
    by (simp add: example_defs)
  have h5: "find (\<lambda>s. Sneaker.sneaker_id s = PricePoint.sneaker_id ?point) exampleSneakers
            = Some ?sneaker"
    by (simp add: exampleSneakers_def sneakerOf_def pointOf_def)
  have h6: "\<forall>s\<in>set exampleSneakers. seriesKey s = seriesKey ?sneaker
              \<longrightarrow> Sneaker.sneaker_id s = PricePoint.sneaker_id ?point"
    by (simp add: exampleSneakers_def sneakerOf_def pointOf_def seriesKey_def)
  have k: "seriesKey ?sneaker = ''Air - Red''" by (simp add: seriesKey_def sneakerOf_def)
  have p: "PricePoint.price ?point = Fin 110" by (simp add: pointOf_def)
  have t1: "exampleParse ''2025-01-01T02:00:00Z'' = Some 1735696800000"
    and t2: "exampleParse ''2025-01-01T23:00:00Z'' = Some 1735772400000"
    by (simp_all add: exampleParse_table)
  have sorted: "sorted_wrt ?le examplePoints"
    by (simp add: examplePoints_def pointOf_def exampleParse_table)
  have q: "?first \<in> set examplePoints
           \<and> normalizeTimestamp exampleParse (PricePoint.timestamp ?first) = Inr 1735689600000
           \<and> PricePoint.sneaker_id ?first = PricePoint.sneaker_id ?point
           \<and> exampleParse (PricePoint.timestamp ?first) = Some 1735696800000
           \<and> exampleParse (PricePoint.timestamp ?point) = Some 1735772400000"
    by (simp add: example_defs examplePoints_def)
  note th = transformPriceData_last_in_input_wins [OF example_rows h2 h3 h4 h5 h6]
  from th have a: "\<exists>row. filter (\<lambda>r. ChartData.timestamp r = 1735689600000) exampleRows = [row]
          \<and> map_of (series row) ''Air - Red'' = Some (Fin 110)"
    by (simp only: k p)
  from th sorted q have b: "(1735696800000 :: int) \<le> 1735772400000"
    by blast
  from a b t1 t2 example_rows show ?thesis by (simp only: simp_thms)
qed

text \<open>
  Claim C10. For every entity whose \<^verbatim>\<open>colorway\<close> is absent, the \<^verbatim>\<open>name\<close> of the
  record \<^verbatim>\<open>calculateStats\<close> returns is the entity's name followed by
  \<^verbatim>\<open> - undefined\<close>, and so is the series key of \<^verbatim>\<open>transformPriceData\<close>: the row of
  every day on which a sample resolves to that entity has this key.
\<close>

theorem absent_colorway_key:
  assumes "Sneaker.colorway sneaker = None"
  shows "SneakerStats.name (calculateStats sneaker statsPoints)
           = Sneaker.name sneaker @ '' - undefined''
         \<and> (\<forall>rows point day.
               transformPriceData parse pricePoints sneakers = Inr rows
               \<and> point \<in> set pricePoints
               \<and> normalizeTimestamp parse (PricePoint.timestamp point) = Inr day
               \<and> find (\<lambda>s. Sneaker.sneaker_id s = PricePoint.sneaker_id point) sneakers
                   = Some sneaker
             \<longrightarrow> (\<exists>row. filter (\<lambda>r. ChartData.timestamp r = day) rows = [row]
                    \<and> Sneaker.name sneaker @ '' - undefined'' \<in> fst ` set (series row)))"
proof (rule conjI)
  show "SneakerStats.name (calculateStats sneaker statsPoints)
        = Sneaker.name sneaker @ '' - undefined''"
    using assms by (simp add: calculateStats_def Let_def seriesKey_def)
next
  have key: "seriesKey sneaker = Sneaker.name sneaker @ '' - undefined''"
    using assms by (simp add: seriesKey_def)
  show "\<forall>rows point day.
               transformPriceData parse pricePoints sneakers = Inr rows
               \<and> point \<in> set pricePoints
               \<and> normalizeTimestamp parse (PricePoint.timestamp point) = Inr day
               \<and> find (\<lambda>s. Sneaker.sneaker_id s = PricePoint.sneaker_id point) sneakers
                   = Some sneaker
             \<longrightarrow> (\<exists>row. filter (\<lambda>r. ChartData.timestamp r = day) rows = [row]
                    \<and> Sneaker.name sneaker @ '' - undefined'' \<in> fst ` set (series row))"
  proof (intro allI impI, elim conjE)
    fix rows point day
    assume rows: "transformPriceData parse pricePoints sneakers = Inr rows"
      and mem: "point \<in> set pricePoints"
      and n: "normalizeTimestamp parse (PricePoint.timestamp point) = Inr day"
      and fnd: "find (\<lambda>s. Sneaker.sneaker_id s = PricePoint.sneaker_id point) sneakers
                = Some sneaker"
    from fnd have ne: "sneakers \<noteq> []" by auto
    from n have b: "inBucket parse point day" by (simp add: inBucket_def)
    from transformPriceData_rows [OF rows ne mem b] obtain g m where
      g: "groupPoints parse pricePoints [] = Inr g" and
      dist: "distinct (map fst g)" and
      dm: "(day, m) \<in> set g" and
      f: "filter (\<lambda>r. ChartData.timestamp r = day) rows = [buildRow sneakers (day, m)]"
      by blast
    from bucket_has_sample [OF g mem b dist dm]
    have i: "PricePoint.sneaker_id point \<in> fst ` set m" .
    from fnd have "resolveKey sneakers (PricePoint.sneaker_id point) = Some (seriesKey sneaker)"
      by (simp add: resolveKey_def)
    with i have "seriesKey sneaker \<in> fst ` set (fold (addPrice sneakers) m [])"
      by (subst fold_addPrice_keys) blast
    then have "Sneaker.name sneaker @ '' - undefined''
               \<in> fst ` set (series (buildRow sneakers (day, m)))"
      by (simp add: key buildRow_def)
    with f show "\<exists>row. filter (\<lambda>r. ChartData.timestamp r = day) rows = [row]
                    \<and> Sneaker.name sneaker @ '' - undefined'' \<in> fst ` set (series row)"
      by blast
  qed
qed

theorem absent_colorway_key_witness:
  "Sneaker.colorway (sneakerOf 2 ''Zoom'' None (Fin 150)) = None
   \<and> SneakerStats.name (calculateStats (sneakerOf 2 ''Zoom'' None (Fin 150)) examplePoints)
       = ''Zoom - undefined''
   \<and> transformPriceData exampleParse examplePoints exampleSneakers = Inr exampleRows
   \<and> (\<exists>row. filter (\<lambda>r. ChartData.timestamp r = 1735689600000) exampleRows = [row]
          \<and> ''Zoom - undefined'' \<in> fst ` set (series row))"
proof -
  let ?sneaker = "sneakerOf 2 ''Zoom'' None (Fin 150)"
  let ?point = "pointOf ''2025-01-01T23:00:00Z'' (Fin 200) 2"
  have h: "Sneaker.colorway ?sneaker = None" by (simp add: sneakerOf_def)
  have n: "Sneaker.name ?sneaker @ '' - undefined'' = ''Zoom - undefined''"
    by (simp add: sneakerOf_def)
  have c: "?point \<in> set examplePoints
           \<and> normalizeTimestamp exampleParse (PricePoint.timestamp ?point) = Inr 1735689600000
           \<and> find (\<lambda>s. Sneaker.sneaker_id s = PricePoint.sneaker_id ?point) exampleSneakers
               = Some ?sneaker"
    by (simp add: example_defs examplePoints_def exampleSneakers_def)
  note th = absent_colorway_key [OF h, of examplePoints exampleParse examplePoints exampleSneakers]
  from th have a: "SneakerStats.name (calculateStats ?sneaker examplePoints) = ''Zoom - undefined''"
    by (simp only: n)
  from th example_rows c
  have b: "\<exists>row. filter (\<lambda>r. ChartData.timestamp r = 1735689600000) exampleRows = [row]
          \<and> ''Zoom - undefined'' \<in> fst ` set (series row)"
    unfolding n by blast
  from h a b example_rows show ?thesis by (simp only: simp_thms)
qed

end
